theory Spec2Isabelle
  imports Complex_Main "HOL-Library.Multiset"
begin

section \<open>Numbers, vectors and table cells\<close>

text \<open>
  The apertures of \<^verbatim>\<open>marxs/optics/aperture.py\<close> work on numpy arrays of
  double precision floats. Floats are idealised here as real numbers: rounding
  error, infinities and NaN produced by arithmetic are not represented. Where
  numpy would produce inf or NaN from a division by zero, the model returns the
  error value \<open>FloatingPointError\<close> instead of a number.
\<close>

datatype vec4 = V4 real real real real

fun dot4 :: "vec4 \<Rightarrow> vec4 \<Rightarrow> real" where
  "dot4 (V4 a0 a1 a2 a3) (V4 b0 b1 b2 b3) = a0 * b0 + a1 * b1 + a2 * b2 + a3 * b3"

fun add4 :: "vec4 \<Rightarrow> vec4 \<Rightarrow> vec4" where
  "add4 (V4 a0 a1 a2 a3) (V4 b0 b1 b2 b3) = V4 (a0 + b0) (a1 + b1) (a2 + b2) (a3 + b3)"

fun scale4 :: "real \<Rightarrow> vec4 \<Rightarrow> vec4" where
  "scale4 k (V4 a0 a1 a2 a3) = V4 (k * a0) (k * a1) (k * a2) (k * a3)"

fun neg4 :: "vec4 \<Rightarrow> vec4" where
  "neg4 (V4 a0 a1 a2 a3) = V4 (- a0) (- a1) (- a2) (- a3)"

text \<open>\<^verbatim>\<open>np.linalg.norm\<close> of a 4-vector: the Euclidean norm over all four components.\<close>

definition norm4 :: "vec4 \<Rightarrow> real" where
  "norm4 v = sqrt (dot4 v v)"

text \<open>\<^verbatim>\<open>np.clip(a, a_min, a_max)\<close> is \<^verbatim>\<open>minimum(a_max, maximum(a, a_min))\<close>.\<close>

definition clip :: "real \<Rightarrow> real \<Rightarrow> real \<Rightarrow> real" where
  "clip a a_min a_max = min a_max (max a a_min)"

text \<open>\<^verbatim>\<open>np.isclose(a, b)\<close> with the default \<^verbatim>\<open>rtol=1e-05, atol=1e-08\<close>.\<close>

definition isclose :: "real \<Rightarrow> real \<Rightarrow> bool" where
  "isclose a b = (\<bar>a - b\<bar> \<le> 1 / 100000000 + 1 / 100000 * \<bar>b\<bar>)"

text \<open>
  A photon table is a dynamic bag of named columns. It is modelled row by row:
  a photon is a finite map from column names to cells, a batch is the list of
  its rows in order. A cell is a float, a 4-vector (the \<^verbatim>\<open>pos\<close> and
  \<^verbatim>\<open>dir\<close> columns have shape \<^verbatim>\<open>(n, 4)\<close>) or the NaN with which
  freshly added output columns are filled.
\<close>

datatype cell = Num real | Vec vec4 | NaN

type_synonym photon = "string \<rightharpoonup> cell"
type_synonym batch = "photon list"

datatype py_error =
    NotImplementedError string
  | ValueError string
  | GeometryError string
  | KeyError string
  | TypeError
  | FloatingPointError

section \<open>The random source\<close>

text \<open>
  The module draws from numpy's global generator. Its state is made explicit:
  the infinite sequence of uniform draws from \<open>[0, 1)\<close> still to come.
  \<^verbatim>\<open>np.random.random(n)\<close> and \<^verbatim>\<open>np.random.rand(n)\<close> take the next
  \<open>n\<close> of them; \<^verbatim>\<open>np.random.uniform(low, high, n)\<close> computes
  \<^verbatim>\<open>low + (high - low) * random_sample()\<close> for each.
\<close>

type_synonym rng = "nat \<Rightarrow> real"

definition unit_draws :: "rng \<Rightarrow> bool" where
  "unit_draws g = (\<forall>i. 0 \<le> g i \<and> g i < 1)"

definition random_sample :: "nat \<Rightarrow> rng \<Rightarrow> real list \<times> rng" where
  "random_sample n g = (map g [0..<n], (\<lambda>i. g (n + i)))"

definition uniform :: "real \<Rightarrow> real \<Rightarrow> nat \<Rightarrow> rng \<Rightarrow> real list \<times> rng" where
  "uniform low high n g =
     (case random_sample n g of (us, g') \<Rightarrow> (map (\<lambda>u. low + (high - low) * u) us, g'))"

section \<open>Geometry and flat apertures\<close>

text \<open>
  The geometry classes \<^verbatim>\<open>RectangleHole\<close> and \<^verbatim>\<open>CircularHole\<close> live in
  \<^verbatim>\<open>marxs/math/geometry.py\<close>; the apertures read the entries
  \<^verbatim>\<open>center, e_x, v_y, v_z, r_inner\<close> and the attributes \<^verbatim>\<open>phi\<close> and
  \<^verbatim>\<open>loc_coos_name\<close> from them. The record holds exactly what is read.
  \<open>r_inner\<close> and \<open>phi\<close> are only read by \<^verbatim>\<open>CircleAperture\<close>.
\<close>

record geometry =
  center :: vec4
  e_x :: vec4
  v_y :: vec4
  v_z :: vec4
  r_inner :: real
  phi :: "real \<times> real"
  loc_coos_name :: "(string \<times> string) option"

datatype aperture_class = FlatAperture | RectangleAperture | CircleAperture

record aperture =
  cls :: aperture_class
  geometry :: geometry
  id_col :: "string option"
  id_num :: int

subsection \<open>Column operations of the table\<close>

text \<open>\<^verbatim>\<open>photons[c] = v\<close> with a scalar: every row gets the value.\<close>

definition set_scalar :: "string \<Rightarrow> cell \<Rightarrow> batch \<Rightarrow> batch" where
  "set_scalar c v photons = map (\<lambda>p. p(c \<mapsto> v)) photons"

text \<open>\<^verbatim>\<open>photons[c] = vs\<close> with one value per row.\<close>

definition set_column :: "string \<Rightarrow> cell list \<Rightarrow> batch \<Rightarrow> batch" where
  "set_column c vs photons = map (\<lambda>(p, v). p(c \<mapsto> v)) (zip photons vs)"

text \<open>
  Reading \<^verbatim>\<open>photons['dir'].data\<close> as an \<^verbatim>\<open>(n, 4)\<close> array: \<open>None\<close> when
  some row has no vector under that name.
\<close>

fun get_vec_column :: "string \<Rightarrow> batch \<Rightarrow> vec4 list option" where
  "get_vec_column c [] = Some []"
| "get_vec_column c (p # ps) =
     (case p c of
        Some (Vec d) \<Rightarrow> map_option ((#) d) (get_vec_column c ps)
      | _ \<Rightarrow> None)"

text \<open>
  \<^verbatim>\<open>photons[c] *= factors\<close> on a float column: a NaN cell stays NaN, a row
  without a float under that name makes the update fail.
\<close>

fun imul_column :: "string \<Rightarrow> real list \<Rightarrow> batch \<Rightarrow> batch option" where
  "imul_column c [] [] = Some []"
| "imul_column c (f # fs) (p # ps) =
     (case p c of
        Some (Num w) \<Rightarrow> map_option ((#) (p(c \<mapsto> Num (w * f)))) (imul_column c fs ps)
      | Some NaN \<Rightarrow> map_option ((#) p) (imul_column c fs ps)
      | _ \<Rightarrow> None)"
| "imul_column c _ _ = None"

text \<open>
  Modelled from the spec: \<^verbatim>\<open>add_output_cols\<close>, a method that
  \<^verbatim>\<open>FlatAperture\<close> inherits from the element base class of
  \<^verbatim>\<open>marxs/optics/base.py\<close>; only its call is in \<^verbatim>\<open>aperture.py\<close>.
  The specification lists local coordinate columns among the element-specific
  additions to a batch whose original columns are preserved: a column named in
  \<open>colnames\<close> that the batch lacks is added, filled with NaN; an existing
  column is left alone.
\<close>

definition add_output_cols :: "batch \<Rightarrow> (string \<times> string) option \<Rightarrow> batch" where
  "add_output_cols photons colnames =
     (case colnames of
        None \<Rightarrow> photons
      | Some (n0, n1) \<Rightarrow>
          map (\<lambda>p. let p0 = (if p n0 = None then p(n0 \<mapsto> NaN) else p)
                   in (if p0 n1 = None then p0(n1 \<mapsto> NaN) else p0)) photons)"

subsection \<open>Sampling the local coordinates\<close>

text \<open>
  \<^verbatim>\<open>FlatAperture.generate_local_xy\<close> returns (does not raise) the class
  \<^verbatim>\<open>NotImplementedError\<close>; unpacking it into \<^verbatim>\<open>x, y\<close> in
  \<^verbatim>\<open>__call__\<close> is a \<^verbatim>\<open>TypeError\<close>. \<^verbatim>\<open>RectangleAperture\<close> draws
  \<open>x\<close> from the first \<open>n\<close> numbers and \<open>y\<close> from the next \<open>n\<close>;
  \<^verbatim>\<open>CircleAperture\<close> draws the angles first and the radii second.
\<close>

definition generate_local_xy ::
  "aperture \<Rightarrow> nat \<Rightarrow> rng \<Rightarrow> py_error + ((real list \<times> real list) \<times> rng)" where
  "generate_local_xy self n g =
     (case cls self of
        FlatAperture \<Rightarrow> Inl TypeError
      | RectangleAperture \<Rightarrow>
          (case random_sample n g of (ux, g1) \<Rightarrow>
            (case random_sample n g1 of (uy, g2) \<Rightarrow>
               Inr ((map (\<lambda>u. u * 2 - 1) ux, map (\<lambda>u. u * 2 - 1) uy), g2)))
      | CircleAperture \<Rightarrow>
          (let geom = geometry self in
            (case uniform (fst (phi geom)) (snd (phi geom)) n g of (phis, g1) \<Rightarrow>
               (if norm4 (v_y geom) = 0 then Inl FloatingPointError
                else
                  (let r_inner_n = r_inner geom / norm4 (v_y geom) in
                    (case uniform (r_inner_n ^ 2) 1 n g1 of (rsq, g2) \<Rightarrow>
                       (let r = map sqrt rsq in
                          Inr ((map (\<lambda>(r, ph). r * cos ph) (zip r phis),
                                map (\<lambda>(r, ph). r * sin ph) (zip r phis)), g2))))))))"

subsection \<open>\<^verbatim>\<open>FlatAperture.__call__\<close> and \<^verbatim>\<open>process_photons\<close>\<close>

definition FlatAperture_call :: "aperture \<Rightarrow> batch \<Rightarrow> rng \<Rightarrow> py_error + (batch \<times> rng)" where
  "FlatAperture_call self photons g =
     (let geom = geometry self;
          photons1 = add_output_cols photons (loc_coos_name geom);
          photons2 = (case id_col self of
                        None \<Rightarrow> photons1
                      | Some c \<Rightarrow> set_scalar c (Num (real_of_int (id_num self))) photons1)
      in (case generate_local_xy self (length photons2) g of
            Inl e \<Rightarrow> Inl e
          | Inr ((x, y), g') \<Rightarrow>
             (let photons3 = (case loc_coos_name geom of
                                None \<Rightarrow> photons2
                              | Some (n0, n1) \<Rightarrow>
                                  set_column n1 (map Num y) (set_column n0 (map Num x) photons2));
                  photons4 = set_column ''pos''
                               (map (\<lambda>(x, y). Vec (add4 (add4 (center geom) (scale4 x (v_y geom)))
                                                          (scale4 y (v_z geom))))
                                    (zip x y))
                               photons3
              in (case get_vec_column ''dir'' photons4 of
                    None \<Rightarrow> Inl (KeyError ''dir'')
                  | Some dirs \<Rightarrow>
                     (let projected_area = map (\<lambda>d. dot4 d (neg4 (e_x geom))) dirs
                      in (case imul_column ''probability''
                                 (map (\<lambda>a. clip a 0 1) projected_area) photons4 of
                            None \<Rightarrow> Inl (KeyError ''probability'')
                          | Some photons5 \<Rightarrow> Inr (photons5, g')))))))"

text \<open>
  \<^verbatim>\<open>process_photons\<close> raises before it touches its argument. The second
  component of the result is the table the caller still holds after the call.
\<close>

definition process_photons :: "aperture \<Rightarrow> batch \<Rightarrow> (py_error + batch) \<times> batch" where
  "process_photons self photons =
     (Inl (NotImplementedError ''You probably want to use __call__.''), photons)"

subsection \<open>Areas and the constructor of \<^verbatim>\<open>CircleAperture\<close>\<close>

text \<open>Areas are in square millimetres; the unit tag is not modelled.\<close>

definition RectangleAperture_area :: "aperture \<Rightarrow> real" where
  "RectangleAperture_area self =
     4 * norm4 (v_y (geometry self)) * norm4 (v_z (geometry self))"

definition CircleAperture_area :: "aperture \<Rightarrow> real" where
  "CircleAperture_area self =
     (let A_circ = pi * ((norm4 (v_y (geometry self))) ^ 2 - (r_inner (geometry self)) ^ 2)
      in (snd (phi (geometry self)) - fst (phi (geometry self))) / (2 * pi) * A_circ)"

text \<open>
  \<^verbatim>\<open>CircleAperture.__init__\<close> after the inherited constructor has built the
  geometry: the two checks, in the order of the source.
\<close>

definition CircleAperture_init ::
  "geometry \<Rightarrow> string option \<Rightarrow> int \<Rightarrow> py_error + aperture" where
  "CircleAperture_init geom idc idn =
     (if r_inner geom > norm4 (v_y geom)
      then Inl (ValueError ''r_inner must be less than size of full aperture.'')
      else if \<not> isclose (norm4 (v_y geom)) (norm4 (v_z geom))
      then Inl (GeometryError ''Aperture does not have the same size in y, z direction.'')
      else Inr \<lparr>cls = CircleAperture, geometry = geom, id_col = idc, id_num = idn\<rparr>)"


section \<open>\<^verbatim>\<open>MultiAperture\<close>\<close>

text \<open>
  The elements of a \<^verbatim>\<open>MultiAperture\<close> are callables with an
  \<^verbatim>\<open>area\<close>; calling one may draw from the random source and may fail. The
  pre- and postprocessing steps mutate the table they are given and return
  nothing: they are functions from the table before to the table after.
\<close>

record element =
  area :: real
  call :: "batch \<Rightarrow> rng \<Rightarrow> py_error + (batch \<times> rng)"

record multi_aperture =
  elements :: "element list"
  multi_id_col :: "string option"
  preprocess_steps :: "(batch \<Rightarrow> batch) list"
  postprocess_steps :: "(batch \<Rightarrow> batch) list"

definition MultiAperture_area :: "multi_aperture \<Rightarrow> real" where
  "MultiAperture_area self = sum_list (map area (elements self))"

text \<open>\<^verbatim>\<open>np.cumsum\<close>.\<close>

fun cumsum_from :: "real \<Rightarrow> real list \<Rightarrow> real list" where
  "cumsum_from acc [] = []"
| "cumsum_from acc (a # as) = (acc + a) # cumsum_from (acc + a) as"

definition cumsum :: "real list \<Rightarrow> real list" where
  "cumsum as = cumsum_from 0 as"

text \<open>
  \<^verbatim>\<open>np.digitize(x, bins)\<close> with \<^verbatim>\<open>right=False\<close>. For bins that never
  decrease it is \<^verbatim>\<open>searchsorted(bins, x, side='right')\<close>, the number of
  leading bins that are at most \<open>x\<close>; for bins that never increase it is the
  length minus that number for the reversed bins; other bins are refused
  with a \<^verbatim>\<open>ValueError\<close>.
\<close>

definition searchsorted_right :: "real list \<Rightarrow> real \<Rightarrow> nat" where
  "searchsorted_right bins x = length (takeWhile (\<lambda>b. b \<le> x) bins)"

definition digitize :: "real list \<Rightarrow> real list \<Rightarrow> py_error + nat list" where
  "digitize xs bins =
     (if sorted bins then Inr (map (searchsorted_right bins) xs)
      else if sorted (rev bins)
      then Inr (map (\<lambda>x. length bins - searchsorted_right (rev bins) x) xs)
      else Inl (ValueError ''bins must be monotonically increasing or decreasing''))"

text \<open>\<^verbatim>\<open>photons[aperid == i]\<close>: the rows assigned to element \<open>i\<close>, in order, as a new table.\<close>

definition select_group :: "batch \<Rightarrow> nat list \<Rightarrow> nat \<Rightarrow> batch" where
  "select_group photons aperid i = map fst (filter (\<lambda>(p, a). a = i) (zip photons aperid))"

text \<open>Running a list of steps on a table, in order.\<close>

definition run_steps :: "(batch \<Rightarrow> batch) list \<Rightarrow> batch \<Rightarrow> batch" where
  "run_steps steps t = fold (\<lambda>p t. p t) steps t"

text \<open>
  The loop over \<^verbatim>\<open>enumerate(self.elements)\<close>: \<open>i\<close> is the index of the
  first element of the remaining list. The outputs are collected in order;
  the first failing element ends the loop.
\<close>

fun run_elements ::
  "multi_aperture \<Rightarrow> batch \<Rightarrow> nat list \<Rightarrow> nat \<Rightarrow> element list \<Rightarrow> rng
     \<Rightarrow> py_error + (batch list \<times> rng)" where
  "run_elements self photons aperid i [] g = Inr ([], g)"
| "run_elements self photons aperid i (elem # elems) g =
     (let thisphot = run_steps (preprocess_steps self) (select_group photons aperid i)
      in (case call elem thisphot g of
            Inl e \<Rightarrow> Inl e
          | Inr (thisphot', g1) \<Rightarrow>
             (let out = run_steps (postprocess_steps self) thisphot'
              in (case run_elements self photons aperid (Suc i) elems g1 of
                    Inl e \<Rightarrow> Inl e
                  | Inr (outs, g2) \<Rightarrow> Inr (out # outs, g2)))))"

text \<open>
  \<^verbatim>\<open>table.vstack\<close>: the rows of the tables one after the other. It
  refuses an empty list of tables.
\<close>

definition vstack :: "batch list \<Rightarrow> py_error + batch" where
  "vstack outs =
     (if outs = [] then Inl (ValueError ''no values provided to stack.'')
      else Inr (concat outs))"

text \<open>\<^verbatim>\<open>photons[self.id_col] = aperid\<close>, when an id column is requested.\<close>

definition tag_photons :: "string option \<Rightarrow> nat list \<Rightarrow> batch \<Rightarrow> batch" where
  "tag_photons idc aperid photons =
     (case idc of
        None \<Rightarrow> photons
      | Some c \<Rightarrow> set_column c (map (\<lambda>i. Num (real i)) aperid) photons)"

text \<open>
  Dividing the array of cumulative areas by the total area. Floats are real
  numbers here, and a quotient by zero is none: numpy gives an infinity or NaN
  for it and goes on. The result is \<open>None\<close> when an entry of the quotient is
  not finite, which is when the divisor is zero and the array is not empty.
\<close>

definition divide_array :: "real list \<Rightarrow> real \<Rightarrow> real list option" where
  "divide_array cs d = (if d = 0 \<and> cs \<noteq> [] then None else Some (map (\<lambda>c. c / d) cs))"

text \<open>
  \<^verbatim>\<open>MultiAperture.__call__\<close>. The uniform numbers are drawn before the
  cumulative areas are divided by the total area. What \<^verbatim>\<open>np.digitize\<close>
  returns for bins that are infinite or NaN (the quotients of the cumulative
  areas by a total area of zero) is numpy's affair and is the parameter
  \<open>digitize_nonfinite\<close>, a function of the numbers drawn and of the cumulative
  areas; the call goes on with its result as with any other.
\<close>

definition MultiAperture_call ::
  "(real list \<Rightarrow> real list \<Rightarrow> py_error + nat list) \<Rightarrow> multi_aperture \<Rightarrow> batch \<Rightarrow> rng
     \<Rightarrow> py_error + (batch \<times> rng)" where
  "MultiAperture_call digitize_nonfinite self photons g =
     (let areas = map area (elements self) in
       (case random_sample (length photons) g of (us, g1) \<Rightarrow>
          (case (case divide_array (cumsum areas) (MultiAperture_area self) of
                   Some bins \<Rightarrow> digitize us bins
                 | None \<Rightarrow> digitize_nonfinite us (cumsum areas)) of
             Inl e \<Rightarrow> Inl e
           | Inr aperid \<Rightarrow>
              (let photons1 = tag_photons (multi_id_col self) aperid photons
               in (case run_elements self photons1 aperid 0 (elements self) g1 of
                     Inl e \<Rightarrow> Inl e
                   | Inr (outs, g2) \<Rightarrow>
                      (case vstack outs of
                         Inl e \<Rightarrow> Inl e
                       | Inr photons2 \<Rightarrow> Inr (photons2, g2)))))))"

section \<open>Detectors\<close>

text \<open>
  The detectors are defined in \<^verbatim>\<open>marxs/optics/detector.py\<close>; this
  development has their test, \<^verbatim>\<open>tests/test_detector.py\<close>, and the
  specification. The definitions of this section follow the specification.
\<close>

subsection \<open>Pixel grid of a flat detector\<close>

text \<open>
  Modelled from the spec: the pixel grid of \<^verbatim>\<open>FlatDetector\<close>
  (\<^verbatim>\<open>npix\<close> and \<^verbatim>\<open>centerpix\<close>), section 4.5:
  \<^verbatim>\<open>npix = round(2*scale/pixsize)\<close> per axis and
  \<^verbatim>\<open>centerpix = (npix-1)/2\<close> per axis. The axes of the grid are the two
  in-plane axes \<open>y\<close> and \<open>z\<close> of the scale \<open>(s_x, s_y, s_z)\<close>. \<open>round\<close> is
  rounding to the nearest integer (ties go up; the specification leaves ties
  open). The pixel size of a detector is not zero.
\<close>

record flat_detector =
  det_scale :: "real \<times> real \<times> real"
  pixsize :: real

definition npix :: "flat_detector \<Rightarrow> int \<times> int" where
  "npix det =
     (case det_scale det of (s_x, s_y, s_z) \<Rightarrow>
        (round (2 * s_y / pixsize det), round (2 * s_z / pixsize det)))"

definition centerpix :: "flat_detector \<Rightarrow> real \<times> real" where
  "centerpix det =
     (case npix det of (n_y, n_z) \<Rightarrow> ((of_int n_y - 1) / 2, (of_int n_z - 1) / 2))"

subsection \<open>Intersection of a ray with a tube\<close>

fun sub4 :: "vec4 \<Rightarrow> vec4 \<Rightarrow> vec4" where
  "sub4 (V4 a0 a1 a2 a3) (V4 b0 b1 b2 b3) = V4 (a0 - b0) (a1 - b1) (a2 - b2) (a3 - b3)"

text \<open>
  Modelled from the spec: the geometry of a tube (section 3): an origin, three
  basis directions of which the first, \<open>e_x\<close>, is the axis of the cylinder, a
  scale per axis, the flag \<^verbatim>\<open>inside\<close> and the angular offset.
\<close>

record tube =
  origin :: vec4
  basis_x :: vec4
  basis_y :: vec4
  basis_z :: vec4
  s_x :: real
  s_y :: real
  s_z :: real
  inside :: bool
  phi_offset :: real

record intersection =
  hit :: bool
  globalPoint :: "vec4 option"
  localCoords :: "(real \<times> real) option"

text \<open>
  Modelled from the spec: the intersection result (section 3): a hit flag, the
  global point and the local coordinates, the latter two NaN-filled on a miss.
  \<open>None\<close> stands for a NaN-filled field.
\<close>

definition miss :: intersection where
  "miss = \<lparr>hit = False, globalPoint = None, localCoords = None\<rparr>"

text \<open>
  Modelled from the spec, section 4.3: the radius is \<^verbatim>\<open>norm(e_y*scale)\<close>;
  position and direction are projected into the plane perpendicular to the
  axis (their components along \<open>e_y\<close> and \<open>e_z\<close>), and the intersection
  with the circle of that radius around the axis is the quadratic
  \<open>a t\<^sup>2 + b t + c = 0\<close>.
\<close>

definition tube_radius :: "tube \<Rightarrow> real" where
  "tube_radius T = norm4 (scale4 (s_y T) (basis_y T))"

definition ray_point :: "vec4 \<Rightarrow> vec4 \<Rightarrow> real \<Rightarrow> vec4" where
  "ray_point pos dir t = add4 pos (scale4 t dir)"

definition radial :: "tube \<Rightarrow> vec4 \<Rightarrow> real \<times> real" where
  "radial T v = (dot4 v (basis_y T), dot4 v (basis_z T))"

definition radial_dist2 :: "tube \<Rightarrow> vec4 \<Rightarrow> real" where
  "radial_dist2 T p =
     (case radial T (sub4 p (origin T)) of (y, z) \<Rightarrow> y ^ 2 + z ^ 2)"

definition quad_a :: "tube \<Rightarrow> vec4 \<Rightarrow> real" where
  "quad_a T dir = (case radial T dir of (dy, dz) \<Rightarrow> dy ^ 2 + dz ^ 2)"

definition quad_b :: "tube \<Rightarrow> vec4 \<Rightarrow> vec4 \<Rightarrow> real" where
  "quad_b T dir pos =
     (case radial T dir of (dy, dz) \<Rightarrow>
      case radial T (sub4 pos (origin T)) of (py, pz) \<Rightarrow> 2 * (py * dy + pz * dz))"

definition quad_c :: "tube \<Rightarrow> vec4 \<Rightarrow> real" where
  "quad_c T pos = radial_dist2 T pos - (tube_radius T) ^ 2"

definition discriminant :: "tube \<Rightarrow> vec4 \<Rightarrow> vec4 \<Rightarrow> real" where
  "discriminant T dir pos = (quad_b T dir pos) ^ 2 - 4 * quad_a T dir * quad_c T pos"

text \<open>
  Modelled from the spec: \<^verbatim>\<open>atan2\<close>, and the normalisation of an angle to
  \<open>[-pi, pi)\<close>.
\<close>

definition arctan2 :: "real \<Rightarrow> real \<Rightarrow> real" where
  "arctan2 y x =
     (if 0 < x then arctan (y / x)
      else if x < 0 then (if 0 \<le> y then arctan (y / x) + pi else arctan (y / x) - pi)
      else if 0 < y then pi / 2
      else if y < 0 then - (pi / 2)
      else 0)"

definition wrap_angle :: "real \<Rightarrow> real" where
  "wrap_angle x = x - 2 * pi * of_int \<lfloor>(x + pi) / (2 * pi)\<rfloor>"

text \<open>
  Modelled from the spec: \<^verbatim>\<open>CircularDetector.intersect\<close>, section 4.3.
  A degenerate quadratic (\<open>a\<close> zero within the tolerance of
  \<^verbatim>\<open>np.isclose\<close>) is a miss, and so is a negative discriminant. Of the two
  roots the larger is picked for \<^verbatim>\<open>inside\<close>, the smaller otherwise; a
  picked root that is not forward (\<open>t < 0\<close>) is a miss. The local coordinates
  of a hit are the angle \<^verbatim>\<open>atan2\<close> of the radial components minus the
  offset, normalised, and the displacement along the axis scaled by
  \<open>1 / s_x\<close>; the point is on the tube within its axial bounds (section 4.1),
  \<open>|v| \<le> 1\<close> in the scaled coordinate, and a miss beyond them.
\<close>

definition intersect :: "tube \<Rightarrow> vec4 \<Rightarrow> vec4 \<Rightarrow> intersection" where
  "intersect T dir pos =
     (let a = quad_a T dir; b = quad_b T dir pos; disc = discriminant T dir pos
      in if isclose a 0 then miss
         else if disc < 0 then miss
         else
           (let t1 = (- b - sqrt disc) / (2 * a);
                t2 = (- b + sqrt disc) / (2 * a);
                t = (if inside T then t2 else t1)
            in if t < 0 then miss
               else
                 (let p = ray_point pos dir t;
                      q = sub4 p (origin T);
                      v = dot4 q (basis_x T) / s_x T
                  in if 1 < \<bar>v\<bar> then miss
                     else
                       (case radial T q of (y, z) \<Rightarrow>
                          \<lparr>hit = True, globalPoint = Some p,
                           localCoords = Some (wrap_angle (arctan2 z y - phi_offset T), v)\<rparr>))))"

section \<open>Row-wise view of the aperture call\<close>

text \<open>
  The columns an element writes besides \<^verbatim>\<open>pos\<close> and
  \<^verbatim>\<open>probability\<close>: its id column and its two local coordinate columns.
\<close>

definition element_cols :: "aperture \<Rightarrow> string set" where
  "element_cols self =
     (case id_col self of None \<Rightarrow> {} | Some c \<Rightarrow> {c}) \<union>
     (case loc_coos_name (geometry self) of None \<Rightarrow> {} | Some (n0, n1) \<Rightarrow> {n0, n1})"

text \<open>
  What the statements of \<^verbatim>\<open>__call__\<close> up to the assignment of \<^verbatim>\<open>pos\<close>
  do to one row, given the local coordinates sampled for it.
\<close>

definition row_after_pos :: "aperture \<Rightarrow> photon \<Rightarrow> real \<Rightarrow> real \<Rightarrow> photon" where
  "row_after_pos self p x y =
     (let geom = geometry self;
          p1 = (case loc_coos_name geom of
                  None \<Rightarrow> p
                | Some (n0, n1) \<Rightarrow>
                    (let p0 = (if p n0 = None then p(n0 \<mapsto> NaN) else p)
                     in (if p0 n1 = None then p0(n1 \<mapsto> NaN) else p0)));
          p2 = (case id_col self of
                  None \<Rightarrow> p1
                | Some c \<Rightarrow> p1(c \<mapsto> Num (real_of_int (id_num self))));
          p3 = (case loc_coos_name geom of
                  None \<Rightarrow> p2
                | Some (n0, n1) \<Rightarrow> p2(n0 \<mapsto> Num x, n1 \<mapsto> Num y))
      in p3(''pos'' \<mapsto> Vec (add4 (add4 (center geom) (scale4 x (v_y geom)))
                                   (scale4 y (v_z geom)))))"

text \<open>The row after the in-place multiplication of its probability.\<close>

definition row_result :: "aperture \<Rightarrow> photon \<Rightarrow> real \<Rightarrow> real \<Rightarrow> photon" where
  "row_result self p x y =
     (let p4 = row_after_pos self p x y
      in (case (p4 ''dir'', p4 ''probability'') of
            (Some (Vec d), Some (Num w)) \<Rightarrow>
               p4(''probability'' \<mapsto> Num (w * clip (dot4 d (neg4 (e_x (geometry self)))) 0 1))
          | _ \<Rightarrow> p4))"

section \<open>Example configurations\<close>

text \<open>
  A unit aperture at the origin whose normal is the global x axis, a photon
  travelling against that normal at an angle, and a random source whose first
  draw is 3/4 and whose later draws are 1/4.
\<close>

definition example_geometry :: geometry where
  "example_geometry =
     \<lparr>center = V4 0 0 0 1, e_x = V4 1 0 0 0, v_y = V4 0 1 0 0, v_z = V4 0 0 1 0,
      r_inner = 0, phi = (0, 2 * pi), loc_coos_name = Some (''y'', ''z'')\<rparr>"

definition example_rectangle :: aperture where
  "example_rectangle =
     \<lparr>cls = RectangleAperture, geometry = example_geometry, id_col = Some ''aperture'',
      id_num = 7\<rparr>"

definition example_circle :: aperture where
  "example_circle =
     \<lparr>cls = CircleAperture, geometry = example_geometry, id_col = None, id_num = 0\<rparr>"

definition example_photon :: photon where
  "example_photon =
     [''dir'' \<mapsto> Vec (V4 (- 3 / 5) (4 / 5) 0 0), ''energy'' \<mapsto> Num 2,
      ''polarization'' \<mapsto> Num 3, ''probability'' \<mapsto> Num 1]"

definition example_rng :: rng where
  "example_rng = (\<lambda>i. if i = 0 then 3 / 4 else 1 / 4)"

text \<open>The circular aperture of outer radius 1 with the inner radius -2.\<close>

definition example_inner_negative :: aperture where
  "example_inner_negative = example_circle\<lparr>geometry := example_geometry\<lparr>r_inner := - 2\<rparr>\<rparr>"

text \<open>A random source whose first draw is 1/2 and whose later draws are 1/4.\<close>

definition example_rng_circle :: rng where
  "example_rng_circle = (\<lambda>i. if i = 0 then 1 / 2 else 1 / 4)"

text \<open>
  Two rectangles of areas 4 and 8 grouped into a \<^verbatim>\<open>MultiAperture\<close> that
  writes the index of the chosen aperture into the column \<^verbatim>\<open>aperture\<close>,
  and a second photon.
\<close>

definition example_unit :: aperture where
  "example_unit = example_rectangle\<lparr>id_col := None\<rparr>"

definition example_wide :: aperture where
  "example_wide =
     \<lparr>cls = RectangleAperture, geometry = example_geometry\<lparr>v_y := V4 0 2 0 0\<rparr>,
      id_col = None, id_num = 0\<rparr>"

definition example_multi :: multi_aperture where
  "example_multi =
     \<lparr>elements =
        [\<lparr>area = RectangleAperture_area example_unit, call = FlatAperture_call example_unit\<rparr>,
         \<lparr>area = RectangleAperture_area example_wide, call = FlatAperture_call example_wide\<rparr>],
      multi_id_col = Some ''aperture'',
      preprocess_steps = [], postprocess_steps = []\<rparr>"

text \<open>
  A stand-in for numpy's answer on bins that are not finite: every number is
  put past the last bin. None of the examples below divides by zero.
\<close>

definition example_nonfinite :: "real list \<Rightarrow> real list \<Rightarrow> py_error + nat list" where
  "example_nonfinite xs cs = Inr (map (\<lambda>x. length cs) xs)"

text \<open>
  A circular aperture of outer radius 1 with the inner radius -2 and the
  sector from 0 to 2 radians, which the constructor accepts; its area is -3.
  Behind the unit rectangle it makes a \<^verbatim>\<open>MultiAperture\<close> of areas 4 and -3.
\<close>

definition example_negative_circle :: aperture where
  "example_negative_circle =
     \<lparr>cls = CircleAperture, geometry = example_geometry\<lparr>r_inner := - 2, phi := (0, 2)\<rparr>,
      id_col = None, id_num = 0\<rparr>"

definition example_multi_negative :: multi_aperture where
  "example_multi_negative =
     \<lparr>elements =
        [\<lparr>area = RectangleAperture_area example_unit, call = FlatAperture_call example_unit\<rparr>,
         \<lparr>area = CircleAperture_area example_negative_circle,
           call = FlatAperture_call example_negative_circle\<rparr>],
      multi_id_col = Some ''aperture'',
      preprocess_steps = [], postprocess_steps = []\<rparr>"

definition example_photon2 :: photon where
  "example_photon2 = example_photon(''energy'' \<mapsto> Num 5)"

text \<open>
  The tube of the detector test: radius 1 around the global z axis, at the
  origin and moved to \<open>(0.8, 0.8, 1.2)\<close>.
\<close>

definition default_tube :: tube where
  "default_tube =
     \<lparr>origin = V4 0 0 0 1, basis_x = V4 0 0 1 0, basis_y = V4 1 0 0 0, basis_z = V4 0 1 0 0,
      s_x = 1, s_y = 1, s_z = 1, inside = True, phi_offset = 0\<rparr>"

definition moved_tube :: tube where
  "moved_tube = default_tube\<lparr>origin := V4 (4 / 5) (4 / 5) (6 / 5) 1\<rparr>"

section \<open>Auxiliary facts\<close>

lemma dot4_neg4: "dot4 d (neg4 e) = - dot4 d e"
  by (cases d; cases e) simp

lemma clip_unit: "0 \<le> clip a 0 1 \<and> clip a 0 1 \<le> 1"
  by (simp add: clip_def)

lemma random_sample_length: "random_sample n g = (us, g') \<Longrightarrow> length us = n"
  by (auto simp: random_sample_def)

lemma uniform_length: "uniform lo hi n g = (us, g') \<Longrightarrow> length us = n"
  by (auto simp: uniform_def random_sample_def)

lemma generate_local_xy_length:
  "generate_local_xy self n g = Inr ((x, y), g') \<Longrightarrow> length x = n \<and> length y = n"
  by (auto simp: generate_local_xy_def Let_def uniform_def random_sample_def
           split: aperture_class.splits prod.splits if_splits)

lemma get_vec_column_Some:
  "get_vec_column c ps = Some ds \<Longrightarrow>
     length ds = length ps \<and> (\<forall>j<length ps. (ps ! j) c = Some (Vec (ds ! j)))"
proof (induction ps arbitrary: ds)
  case Nil
  then show ?case by simp
next
  case (Cons p ps)
  then show ?case
    by (auto split: option.splits cell.splits simp: nth_Cons split: nat.splits)
qed

lemma imul_column_Some:
  "imul_column c fs ps = Some ps' \<Longrightarrow>
     length ps' = length ps \<and> length fs = length ps \<and>
     (\<forall>j<length ps. ps' ! j =
        (case (ps ! j) c of Some (Num w) \<Rightarrow> (ps ! j)(c \<mapsto> Num (w * fs ! j)) | _ \<Rightarrow> ps ! j))"
proof (induction c fs ps arbitrary: ps' rule: imul_column.induct)
  case (1 c)
  then show ?case by simp
next
  case (2 c f fs p ps)
  then show ?case
    by (auto split: option.splits cell.splits simp: nth_Cons split: nat.splits)
qed simp_all

lemma row_after_pos_other:
  "c \<notin> element_cols self \<Longrightarrow> c \<noteq> ''pos'' \<Longrightarrow> row_after_pos self p x y c = p c"
  by (auto simp: row_after_pos_def element_cols_def Let_def split: option.splits prod.splits)

text \<open>
  A successful call has sampled one coordinate pair per row and has turned
  every row into its \<open>row_result\<close>.
\<close>

lemma FlatAperture_call_rows:
  assumes "FlatAperture_call self photons g = Inr (photons', g')"
  shows "\<exists>x y. generate_local_xy self (length photons) g = Inr ((x, y), g') \<and>
           length x = length photons \<and> length y = length photons \<and>
           length photons' = length photons \<and>
           (\<forall>j<length photons. photons' ! j = row_result self (photons ! j) (x ! j) (y ! j))"
proof -
  define geom where "geom = geometry self"
  define photons1 where "photons1 = add_output_cols photons (loc_coos_name geom)"
  define photons2 where "photons2 = (case id_col self of
                        None \<Rightarrow> photons1
                      | Some c \<Rightarrow> set_scalar c (Num (real_of_int (id_num self))) photons1)"
  have len2: "length photons2 = length photons"
    by (simp add: photons2_def photons1_def add_output_cols_def set_scalar_def
             split: option.splits prod.splits)
  from assms obtain x y where
    gen: "generate_local_xy self (length photons) g = Inr ((x, y), g')"
    unfolding FlatAperture_call_def Let_def
    using len2 [unfolded photons2_def photons1_def geom_def]
    by (auto split: sum.splits prod.splits option.splits)
  have lx: "length x = length photons" and ly: "length y = length photons"
    using generate_local_xy_length [OF gen] by simp_all
  define photons3 where "photons3 = (case loc_coos_name geom of
                                None \<Rightarrow> photons2
                              | Some (n0, n1) \<Rightarrow>
                                  set_column n1 (map Num y) (set_column n0 (map Num x) photons2))"
  define photons4 where "photons4 = set_column ''pos''
                               (map (\<lambda>(x, y). Vec (add4 (add4 (center geom) (scale4 x (v_y geom)))
                                                          (scale4 y (v_z geom))))
                                    (zip x y))
                               photons3"
  have len4: "length photons4 = length photons"
    using lx ly len2
    by (simp add: photons4_def photons3_def set_column_def split: option.splits prod.splits)
  have row4: "photons4 ! j = row_after_pos self (photons ! j) (x ! j) (y ! j)"
    if "j < length photons" for j
    using that lx ly
    by (simp add: photons4_def photons3_def photons2_def photons1_def set_column_def
          set_scalar_def add_output_cols_def row_after_pos_def geom_def Let_def
          split: option.splits prod.splits)
  from assms gen obtain dirs where
    dirs: "get_vec_column ''dir'' photons4 = Some dirs"
    and mul: "imul_column ''probability''
                (map (\<lambda>a. clip a 0 1) (map (\<lambda>d. dot4 d (neg4 (e_x geom))) dirs)) photons4
              = Some photons'"
    unfolding FlatAperture_call_def Let_def photons4_def photons3_def photons2_def
      photons1_def geom_def
    using len2 [unfolded photons2_def photons1_def geom_def]
    by (auto split: sum.splits prod.splits option.splits)
  note D = get_vec_column_Some [OF dirs]
  note M = imul_column_Some [OF mul]
  have "photons' ! j = row_result self (photons ! j) (x ! j) (y ! j)"
    if j: "j < length photons" for j
  proof -
    have a: "(photons4 ! j) ''dir'' = Some (Vec (dirs ! j))"
      using D j len4 by simp
    have b: "photons' ! j =
        (case (photons4 ! j) ''probability'' of
           Some (Num w) \<Rightarrow> (photons4 ! j)(''probability'' \<mapsto>
              Num (w * map (\<lambda>a. clip a 0 1) (map (\<lambda>d. dot4 d (neg4 (e_x geom))) dirs) ! j))
         | _ \<Rightarrow> photons4 ! j)"
      using M j len4 by simp
    have c: "map (\<lambda>a. clip a 0 1) (map (\<lambda>d. dot4 d (neg4 (e_x geom))) dirs) ! j
             = clip (dot4 (dirs ! j) (neg4 (e_x geom))) 0 1"
      using D j len4 by simp
    show ?thesis
      using a b c row4 [OF j]
      by (simp add: row_result_def Let_def geom_def split: option.splits cell.splits)
  qed
  with gen lx ly M len4 show ?thesis by auto
qed

text \<open>The example call, evaluated: the photon lands at local \<open>(1/2, -1/2)\<close>.\<close>

lemma example_call:
  "map_sum id fst (FlatAperture_call example_rectangle [example_photon] example_rng) =
     Inr [example_photon(''y'' \<mapsto> Num (1 / 2), ''z'' \<mapsto> Num (- 1 / 2),
            ''aperture'' \<mapsto> Num 7,
            ''pos'' \<mapsto> Vec (V4 0 (1 / 2) (- 1 / 2) 1),
            ''probability'' \<mapsto> Num (3 / 5))]"
  by (simp add: FlatAperture_call_def example_rectangle_def example_geometry_def
        example_photon_def example_rng_def add_output_cols_def set_scalar_def
        set_column_def generate_local_xy_def random_sample_def clip_def Let_def fun_upd_twist)

lemma map_sum_fst_InrD:
  "map_sum id fst r = Inr b \<Longrightarrow> \<exists>g'. r = Inr (b, g')"
  by (cases r) auto

lemma row_result_not_prob:
  "c \<noteq> ''probability'' \<Longrightarrow> row_result self p x y c = row_after_pos self p x y c"
  by (simp add: row_result_def Let_def split: option.splits cell.splits)

lemma row_result_dom_eq:
  "dom (row_result self p x y) = dom (row_after_pos self p x y)"
  by (auto simp: row_result_def Let_def split: option.splits cell.splits if_splits)



lemma row_result_other:
  "c \<notin> element_cols self \<Longrightarrow> c \<noteq> ''pos'' \<Longrightarrow> c \<noteq> ''probability'' \<Longrightarrow>
     row_result self p x y c = p c"
  by (simp add: row_result_not_prob row_after_pos_other)



lemma row_after_pos_dom:
  "dom (row_after_pos self p x y) = dom p \<union> {''pos''} \<union> element_cols self"
  by (auto simp add: row_after_pos_def element_cols_def Let_def
        split: option.splits if_splits)

lemma row_result_dom:
  "dom (row_result self p x y) = dom p \<union> {''pos''} \<union> element_cols self"
  by (simp add: row_result_dom_eq row_after_pos_dom)


lemma generate_local_xy_not_NotImplemented:
  "generate_local_xy self n g \<noteq> Inl (NotImplementedError m)"
  by (simp add: generate_local_xy_def Let_def uniform_def random_sample_def
        split: aperture_class.splits)

lemma circle_xy:
  assumes "cls self = CircleAperture"
    and "generate_local_xy self n g = Inr ((x, y), g')" and "j < n"
  shows "norm4 (v_y (geometry self)) \<noteq> 0 \<and>
         x ! j = sqrt ((r_inner (geometry self) / norm4 (v_y (geometry self))) ^ 2 +
                       (1 - (r_inner (geometry self) / norm4 (v_y (geometry self))) ^ 2) * g (n + j)) *
                 cos (fst (phi (geometry self)) +
                      (snd (phi (geometry self)) - fst (phi (geometry self))) * g j) \<and>
         y ! j = sqrt ((r_inner (geometry self) / norm4 (v_y (geometry self))) ^ 2 +
                       (1 - (r_inner (geometry self) / norm4 (v_y (geometry self))) ^ 2) * g (n + j)) *
                 sin (fst (phi (geometry self)) +
                      (snd (phi (geometry self)) - fst (phi (geometry self))) * g j)"
  using assms
  by (auto simp: generate_local_xy_def uniform_def random_sample_def Let_def split: if_splits)

lemma norm4_nonneg: "0 \<le> norm4 v"
  by (cases v) (simp add: norm4_def)

lemma inverse_cdf_radius:
  fixes lo u rho :: real
  assumes "lo ^ 2 < 1" "0 \<le> u" "0 \<le> rho"
  shows "sqrt (lo ^ 2 + (1 - lo ^ 2) * u) \<le> rho \<longleftrightarrow> u \<le> (rho ^ 2 - lo ^ 2) / (1 - lo ^ 2)"
proof -
  have d: "0 < 1 - lo ^ 2"
    using assms(1) by simp
  have nn: "0 \<le> lo ^ 2 + (1 - lo ^ 2) * u"
    using d assms(2) by simp
  have "sqrt (lo ^ 2 + (1 - lo ^ 2) * u) \<le> rho \<longleftrightarrow> lo ^ 2 + (1 - lo ^ 2) * u \<le> rho ^ 2"
    using nn assms(3) by (metis real_sqrt_le_iff real_sqrt_abs abs_of_nonneg)
  also have "\<dots> \<longleftrightarrow> (1 - lo ^ 2) * u \<le> rho ^ 2 - lo ^ 2" by auto
  also have "\<dots> \<longleftrightarrow> u \<le> (rho ^ 2 - lo ^ 2) / (1 - lo ^ 2)"
    using d by (simp add: pos_le_divide_eq mult.commute)
  finally show ?thesis .
qed

lemma radius_between:
  fixes lo u :: real
  assumes "0 \<le> u" "u < 1"
  shows "min \<bar>lo\<bar> 1 \<le> sqrt (lo ^ 2 + (1 - lo ^ 2) * u) \<and>
         sqrt (lo ^ 2 + (1 - lo ^ 2) * u) \<le> max \<bar>lo\<bar> 1"
proof (cases "lo ^ 2 \<le> 1")
  case True
  then have d: "0 \<le> 1 - lo ^ 2" by simp
  have a: "lo ^ 2 \<le> lo ^ 2 + (1 - lo ^ 2) * u"
    using d assms(1) by simp
  have "(1 - lo ^ 2) * u \<le> (1 - lo ^ 2) * 1"
    using d assms(2) by (intro mult_left_mono) simp_all
  then have b: "lo ^ 2 + (1 - lo ^ 2) * u \<le> 1" by simp
  have "\<bar>lo\<bar> = sqrt (lo ^ 2)" by simp
  also have "\<dots> \<le> sqrt (lo ^ 2 + (1 - lo ^ 2) * u)" using a by (simp only: real_sqrt_le_iff)
  finally have 1: "\<bar>lo\<bar> \<le> sqrt (lo ^ 2 + (1 - lo ^ 2) * u)" .
  have "sqrt (lo ^ 2 + (1 - lo ^ 2) * u) \<le> sqrt 1" using b by (simp only: real_sqrt_le_iff)
  then have 2: "sqrt (lo ^ 2 + (1 - lo ^ 2) * u) \<le> 1" by simp
  have "\<bar>lo\<bar> \<le> 1" using True by (simp add: abs_square_le_1)
  then have "min \<bar>lo\<bar> 1 = \<bar>lo\<bar>" "max \<bar>lo\<bar> 1 = 1" by simp_all
  with 1 2 show ?thesis by simp
next
  case False
  then have d: "0 < lo ^ 2 - 1" by simp
  have "(lo ^ 2 - 1) * u \<le> (lo ^ 2 - 1) * 1"
    using d assms(2) by (intro mult_left_mono) simp_all
  then have a: "1 \<le> lo ^ 2 + (1 - lo ^ 2) * u" by (simp add: algebra_simps)
  have "0 \<le> (lo ^ 2 - 1) * u" using d assms(1) by simp
  then have b: "lo ^ 2 + (1 - lo ^ 2) * u \<le> lo ^ 2" by (simp add: algebra_simps)
  have "sqrt 1 \<le> sqrt (lo ^ 2 + (1 - lo ^ 2) * u)" using a by (simp only: real_sqrt_le_iff)
  then have 1: "1 \<le> sqrt (lo ^ 2 + (1 - lo ^ 2) * u)" by simp
  have "sqrt (lo ^ 2 + (1 - lo ^ 2) * u) \<le> sqrt (lo ^ 2)" using b by (simp only: real_sqrt_le_iff)
  then have 2: "sqrt (lo ^ 2 + (1 - lo ^ 2) * u) \<le> \<bar>lo\<bar>" by simp
  have "\<not> \<bar>lo\<bar> \<le> 1" using False by (simp add: abs_square_le_1)
  then have "min \<bar>lo\<bar> 1 = 1" "max \<bar>lo\<bar> 1 = \<bar>lo\<bar>" by simp_all
  with 1 2 show ?thesis by simp
qed

lemma uniform_angle_reversed:
  fixes a b u :: real
  assumes "b < a" "0 \<le> u" "u < 1"
  shows "b < a + (b - a) * u \<and> a + (b - a) * u \<le> a"
proof -
  have d: "0 < a - b" using assms(1) by simp
  have "0 \<le> (a - b) * u" using d assms(2) by simp
  then have 1: "a + (b - a) * u \<le> a" by (simp add: algebra_simps)
  have "(a - b) * u < (a - b) * 1" using d assms(3) by (simp only: mult_less_cancel_left_pos)
  then have 2: "b < a + (b - a) * u" by (simp add: algebra_simps)
  from 1 2 show ?thesis by simp
qed

lemma polar_radius:
  fixes r :: real
  assumes "0 \<le> r"
  shows "sqrt ((r * cos t) ^ 2 + (r * sin t) ^ 2) = r"
proof -
  have "(r * cos t) ^ 2 + (r * sin t) ^ 2 = r ^ 2 * ((cos t) ^ 2 + (sin t) ^ 2)"
    by (simp only: power_mult_distrib distrib_left)
  also have "\<dots> = r ^ 2"
    by (simp add: cos_squared_eq)
  finally show ?thesis using assms by simp
qed

lemma uniform_angle:
  fixes a b u :: real
  assumes "a < b" "0 \<le> u" "u < 1"
  shows "a \<le> a + (b - a) * u \<and> a + (b - a) * u < b \<and>
         (\<forall>t. a + (b - a) * u \<le> t \<longleftrightarrow> u \<le> (t - a) / (b - a))"
proof -
  have d: "0 < b - a" using assms(1) by simp
  have 1: "0 \<le> (b - a) * u" using d assms(2) by simp
  have "(b - a) * u < (b - a) * 1" using d assms(3) by (simp only: mult_less_cancel_left_pos)
  then have 2: "a + (b - a) * u < b" by simp
  have 3: "a + (b - a) * u \<le> t \<longleftrightarrow> u \<le> (t - a) / (b - a)" for t
  proof -
    have "a + (b - a) * u \<le> t \<longleftrightarrow> u * (b - a) \<le> t - a" by (auto simp: mult.commute)
    also have "\<dots> \<longleftrightarrow> u \<le> (t - a) / (b - a)" using d by (simp only: pos_le_divide_eq)
    finally show ?thesis .
  qed
  show ?thesis using 1 2 3 by simp
qed

text \<open>Cumulative sums, bin search and the loop over the elements.\<close>

lemma length_cumsum_from: "length (cumsum_from a as) = length as"
  by (induction as arbitrary: a) simp_all

lemma cumsum_from_lower:
  "\<forall>y\<in>set as. 0 \<le> y \<Longrightarrow> x \<in> set (cumsum_from a as) \<Longrightarrow> a \<le> x"
proof (induction as arbitrary: a)
  case Nil
  then show ?case by simp
next
  case (Cons y ys)
  then show ?case by fastforce
qed

lemma sorted_cumsum_from: "\<forall>y\<in>set as. 0 \<le> y \<Longrightarrow> sorted (cumsum_from a as)"
proof (induction as arbitrary: a)
  case Nil
  then show ?case by simp
next
  case (Cons y ys)
  then show ?case using cumsum_from_lower [of ys _ "a + y"] by auto
qed

lemma last_Cons_cumsum_from: "last (a # cumsum_from a as) = a + sum_list as"
proof (induction as arbitrary: a)
  case Nil
  then show ?case by simp
next
  case (Cons y ys)
  have "last (a # cumsum_from a (y # ys)) = last ((a + y) # cumsum_from (a + y) ys)"
    by simp
  also have "\<dots> = (a + y) + sum_list ys"
    by (rule Cons.IH)
  finally show ?case by (simp add: add.assoc)
qed

lemma last_cumsum_from: "as \<noteq> [] \<Longrightarrow> last (cumsum_from a as) = a + sum_list as"
proof (cases as)
  case Nil
  then show "as \<noteq> [] \<Longrightarrow> ?thesis" by simp
next
  case (Cons y ys)
  have "last (cumsum_from a (y # ys)) = last ((a + y) # cumsum_from (a + y) ys)"
    by simp
  also have "\<dots> = (a + y) + sum_list ys"
    by (rule last_Cons_cumsum_from)
  finally show ?thesis using Cons by (simp add: add.assoc)
qed

lemma searchsorted_right_iff:
  assumes "sorted bins" and "i < length bins"
  shows "searchsorted_right bins x = i \<longleftrightarrow> (i = 0 \<or> bins ! (i - 1) \<le> x) \<and> x < bins ! i"
proof
  assume e: "searchsorted_right bins x = i"
  have "\<not> bins ! i \<le> x"
    using nth_length_takeWhile [of "\<lambda>b. b \<le> x" bins] assms(2) e
    by (simp add: searchsorted_right_def)
  moreover have "bins ! (i - 1) \<le> x" if "i \<noteq> 0"
  proof -
    have l: "i - 1 < length (takeWhile (\<lambda>b. b \<le> x) bins)"
      using that e by (simp add: searchsorted_right_def)
    then have "takeWhile (\<lambda>b. b \<le> x) bins ! (i - 1) \<in> set (takeWhile (\<lambda>b. b \<le> x) bins)"
      by (rule nth_mem)
    then have "takeWhile (\<lambda>b. b \<le> x) bins ! (i - 1) \<le> x"
      by (rule set_takeWhileD [THEN conjunct2])
    then show ?thesis
      using takeWhile_nth [OF l] by simp
  qed
  ultimately show "(i = 0 \<or> bins ! (i - 1) \<le> x) \<and> x < bins ! i" by auto
next
  assume h: "(i = 0 \<or> bins ! (i - 1) \<le> x) \<and> x < bins ! i"
  have "takeWhile (\<lambda>b. b \<le> x) bins = take i bins"
  proof (rule takeWhile_eq_take_P_nth)
    fix m assume m: "m < i" "m < length bins"
    then have "bins ! m \<le> bins ! (i - 1)"
      using assms by (intro sorted_nth_mono) simp_all
    then show "bins ! m \<le> x" using h m by auto
  next
    show "\<not> bins ! i \<le> x" using h by simp
  qed
  then show "searchsorted_right bins x = i"
    using assms(2) by (simp add: searchsorted_right_def)
qed

lemma searchsorted_right_less:
  assumes "bins \<noteq> []" and "x < last bins"
  shows "searchsorted_right bins x < length bins"
proof (rule ccontr)
  assume "\<not> searchsorted_right bins x < length bins"
  then have "length (takeWhile (\<lambda>b. b \<le> x) bins) = length bins"
    using length_takeWhile_le [of "\<lambda>b. b \<le> x" bins] by (simp add: searchsorted_right_def)
  then have "takeWhile (\<lambda>b. b \<le> x) bins = bins"
    by (metis takeWhile_eq_take take_all order_refl)
  then have "\<forall>b\<in>set bins. b \<le> x"
    by (metis set_takeWhileD)
  then show False using assms by (metis last_in_set not_less)
qed

lemma run_elements_Inr:
  "run_elements self photons aperid i elems g = Inr (outs, g') \<Longrightarrow>
     length outs = length elems \<and>
     (\<forall>m<length elems. \<exists>gm gm' out.
         call (elems ! m)
              (run_steps (preprocess_steps self) (select_group photons aperid (i + m))) gm
           = Inr (out, gm') \<and>
         outs ! m = run_steps (postprocess_steps self) out)"
proof (induction elems arbitrary: i g outs)
  case Nil
  then show ?case by simp
next
  case (Cons elem elems)
  from Cons.prems obtain t g1 outs' where
    c: "call elem (run_steps (preprocess_steps self) (select_group photons aperid i)) g
          = Inr (t, g1)"
    and r: "run_elements self photons aperid (Suc i) elems g1 = Inr (outs', g')"
    and o: "outs = run_steps (postprocess_steps self) t # outs'"
    by (auto simp: Let_def split: sum.splits prod.splits)
  note IH = Cons.IH [OF r]
  show ?case
  proof (intro conjI allI impI)
    show "length outs = length (elem # elems)" using IH o by simp
  next
    fix m assume m: "m < length (elem # elems)"
    show "\<exists>gm gm' out.
         call ((elem # elems) ! m)
              (run_steps (preprocess_steps self) (select_group photons aperid (i + m))) gm
           = Inr (out, gm') \<and>
         outs ! m = run_steps (postprocess_steps self) out"
    proof (cases m)
      case 0
      then show ?thesis using c o by auto
    next
      case (Suc k)
      then have "k < length elems" using m by simp
      with IH obtain gm gm' out where
        "call (elems ! k)
              (run_steps (preprocess_steps self) (select_group photons aperid (Suc i + k))) gm
           = Inr (out, gm')" "outs' ! k = run_steps (postprocess_steps self) out"
        by blast
      then show ?thesis using Suc o by auto
    qed
  qed
qed

lemma mset_filter_disjoint:
  "\<forall>x. \<not> (P x \<and> Q x) \<Longrightarrow>
     mset (filter P xs) + mset (filter Q xs) = mset (filter (\<lambda>x. P x \<or> Q x) xs)"
  by (induction xs) auto

lemma mset_groups_upto:
  "mset (concat (map (select_group photons aperid) [0..<k])) =
     mset (map fst (filter (\<lambda>(p, a). a < k) (zip photons aperid)))"
proof (induction k)
  case 0
  then show ?case by simp
next
  case (Suc k)
  have "mset (filter (\<lambda>(p, a). a < k) (zip photons aperid)) +
        mset (filter (\<lambda>(p, a). a = k) (zip photons aperid)) =
        mset (filter (\<lambda>x. (case x of (p, a) \<Rightarrow> a < k) \<or> (case x of (p, a) \<Rightarrow> a = k))
                (zip photons aperid))"
    by (rule mset_filter_disjoint) auto
  also have "\<dots> = mset (filter (\<lambda>(p, a). a < Suc k) (zip photons aperid))"
    by (rule arg_cong [where f = mset], rule filter_cong) auto
  finally have "image_mset fst (mset (filter (\<lambda>(p, a). a < k) (zip photons aperid))) +
        image_mset fst (mset (filter (\<lambda>(p, a). a = k) (zip photons aperid))) =
        image_mset fst (mset (filter (\<lambda>(p, a). a < Suc k) (zip photons aperid)))"
    by (metis image_mset_union)
  with Suc show ?case
    by (simp add: select_group_def)
qed

lemma mset_groups:
  assumes "length aperid = length photons" and "\<forall>a\<in>set aperid. a < k"
  shows "mset (concat (map (select_group photons aperid) [0..<k])) = mset photons"
proof -
  have "filter (\<lambda>(p, a). a < k) (zip photons aperid) = zip photons aperid"
    using assms(2) by (auto simp: filter_id_conv dest: set_zip_rightD)
  then show ?thesis
    using assms(1) by (simp add: mset_groups_upto)
qed

lemma tag_photons_length:
  "length aperid = length photons \<Longrightarrow> length (tag_photons idc aperid photons) = length photons"
  by (simp add: tag_photons_def set_column_def split: option.splits)

lemma tag_photons_nth:
  assumes "length aperid = length photons" and "j < length photons"
  shows "(tag_photons idc aperid photons ! j) c =
           (if idc = Some c then Some (Num (real (aperid ! j))) else (photons ! j) c)"
  using assms by (auto simp add: tag_photons_def set_column_def split: option.splits)

lemma example_areas:
  "RectangleAperture_area example_unit = 4" "RectangleAperture_area example_wide = 8"
  by (simp_all add: RectangleAperture_area_def example_unit_def example_wide_def
        example_rectangle_def example_geometry_def norm4_def)

lemma example_digitize:
  "digitize [3 / 4, 1 / 4] [1 / 3, 1] = Inr [1, 0]"
  by (simp add: digitize_def searchsorted_right_def)

lemma example_multi_call:
  "map_sum id fst
     (MultiAperture_call example_nonfinite example_multi [example_photon, example_photon2]
        example_rng) =
     Inr [example_photon2(''aperture'' \<mapsto> Num 0, ''y'' \<mapsto> Num (- 1 / 2), ''z'' \<mapsto> Num (- 1 / 2),
            ''pos'' \<mapsto> Vec (V4 0 (- 1 / 2) (- 1 / 2) 1),
            ''probability'' \<mapsto> Num (3 / 5)),
          example_photon(''aperture'' \<mapsto> Num 1, ''y'' \<mapsto> Num (- 1 / 2), ''z'' \<mapsto> Num (- 1 / 2),
            ''pos'' \<mapsto> Vec (V4 0 (- 1) (- 1 / 2) 1),
            ''probability'' \<mapsto> Num (3 / 5))]"
  by (simp add: MultiAperture_call_def MultiAperture_area_def example_multi_def
        RectangleAperture_area_def norm4_def divide_array_def
        cumsum_def example_digitize tag_photons_def select_group_def run_steps_def vstack_def
        FlatAperture_call_def example_unit_def example_wide_def example_rectangle_def
        example_geometry_def example_photon_def example_photon2_def example_rng_def
        add_output_cols_def set_scalar_def
        set_column_def generate_local_xy_def random_sample_def clip_def Let_def fun_upd_twist)

text \<open>The quadratic of the tube, and the rays of the detector test.\<close>

lemma dot4_ray:
  "dot4 (sub4 (ray_point pos dir t) orig) e = dot4 (sub4 pos orig) e + t * dot4 dir e"
  by (cases pos; cases dir; cases orig; cases e) (simp add: ray_point_def algebra_simps)

lemma radial_dist2_ray:
  "radial_dist2 T (ray_point pos dir t) =
     quad_a T dir * t ^ 2 + quad_b T dir pos * t + quad_c T pos + (tube_radius T) ^ 2"
  by (simp add: radial_dist2_def radial_def quad_a_def quad_b_def quad_c_def dot4_ray
        power2_eq_square algebra_simps)

lemma quad_a_nonneg: "0 \<le> quad_a T dir"
  by (simp add: quad_a_def radial_def)

lemma outside_discriminant:
  assumes "\<forall>t. (tube_radius T) ^ 2 < radial_dist2 T (ray_point pos dir t)"
    and "0 < quad_a T dir"
  shows "discriminant T dir pos < 0"
proof -
  define a where "a = quad_a T dir"
  define b where "b = quad_b T dir pos"
  define c where "c = quad_c T pos"
  have a: "0 < a" using assms(2) by (simp add: a_def)
  have "0 < a * t ^ 2 + b * t + c" for t
  proof -
    have "(tube_radius T) ^ 2 < radial_dist2 T (ray_point pos dir t)"
      using assms(1) by blast
    then show ?thesis
      unfolding radial_dist2_ray a_def b_def c_def by linarith
  qed
  from this [of "- b / (2 * a)"] have "0 < a * (- b / (2 * a)) ^ 2 + b * (- b / (2 * a)) + c" .
  also have "a * (- b / (2 * a)) ^ 2 + b * (- b / (2 * a)) + c = c - b ^ 2 / (4 * a)"
    using a by (simp add: power2_eq_square field_simps)
  finally have "b ^ 2 / (4 * a) < c" by simp
  then have "b ^ 2 < c * (4 * a)"
    using a by (simp add: pos_divide_less_eq)
  then show ?thesis
    by (simp add: discriminant_def a_def b_def c_def algebra_simps)
qed

lemma tube_radius_default: "tube_radius default_tube = 1" "tube_radius moved_tube = 1"
  by (simp_all add: tube_radius_def default_tube_def moved_tube_def norm4_def)

lemma test_rays_discriminant:
  "discriminant default_tube (V4 1 0 (1 / 10) 0) (V4 0 (- 11 / 10) 0 1) < 0"
  "discriminant default_tube (V4 (- 1) (- 1) 0 0) (V4 2 0 0 1) < 0"
  "discriminant moved_tube (V4 1 0 0 0) (V4 0 (- 3 / 10) 1 1) < 0"
  by (simp_all add: discriminant_def quad_a_def quad_b_def quad_c_def radial_dist2_def radial_def
        tube_radius_def norm4_def default_tube_def moved_tube_def power2_eq_square)

lemma intersect_axial_miss:
  assumes "\<not> isclose (quad_a T dir) 0" and "0 \<le> discriminant T dir pos"
    and "t = (if inside T
              then (- quad_b T dir pos + sqrt (discriminant T dir pos)) / (2 * quad_a T dir)
              else (- quad_b T dir pos - sqrt (discriminant T dir pos)) / (2 * quad_a T dir))"
    and "1 < \<bar>dot4 (sub4 (ray_point pos dir t) (origin T)) (basis_x T) / s_x T\<bar>"
  shows "intersect T dir pos = miss"
  using assms by (cases "inside T") (simp_all add: intersect_def Let_def)

lemma test_ray_near_axis:
  "intersect default_tube (V4 0 (1 / 10) 1 0) (V4 (1 / 2) (1 / 2) 0 1) = miss"
proof -
  have a: "quad_a default_tube (V4 0 (1 / 10) 1 0) = 1 / 100"
    and b: "quad_b default_tube (V4 0 (1 / 10) 1 0) (V4 (1 / 2) (1 / 2) 0 1) = 1 / 10"
    and d: "discriminant default_tube (V4 0 (1 / 10) 1 0) (V4 (1 / 2) (1 / 2) 0 1) = 3 / 100"
    by (simp_all add: discriminant_def quad_a_def quad_b_def quad_c_def radial_dist2_def
          radial_def tube_radius_def norm4_def default_tube_def power2_eq_square)
  have "(3 / 25) ^ 2 < (3 / 100 :: real)" by (simp add: power2_eq_square)
  then have s: "3 / 25 < sqrt (3 / 100)" by (rule real_less_rsqrt)
  define t where "t = (- (1 / 10) + sqrt (3 / 100)) / (2 * (1 / 100))"
  have t1: "1 < t" using s by (simp add: t_def field_simps)
  have ax: "dot4 (sub4 (ray_point (V4 (1 / 2) (1 / 2) 0 1) (V4 0 (1 / 10) 1 0) t)
                       (origin default_tube)) (basis_x default_tube) / s_x default_tube = t"
    by (simp add: ray_point_def default_tube_def)
  show ?thesis
  proof (rule intersect_axial_miss [where t = t])
    show "\<not> isclose (quad_a default_tube (V4 0 (1 / 10) 1 0)) 0"
      by (simp add: a isclose_def)
    show "0 \<le> discriminant default_tube (V4 0 (1 / 10) 1 0) (V4 (1 / 2) (1 / 2) 0 1)"
      by (simp add: d)
    show "t = (if inside default_tube
              then (- quad_b default_tube (V4 0 (1 / 10) 1 0) (V4 (1 / 2) (1 / 2) 0 1) +
                    sqrt (discriminant default_tube (V4 0 (1 / 10) 1 0) (V4 (1 / 2) (1 / 2) 0 1)))
                   / (2 * quad_a default_tube (V4 0 (1 / 10) 1 0))
              else (- quad_b default_tube (V4 0 (1 / 10) 1 0) (V4 (1 / 2) (1 / 2) 0 1) -
                    sqrt (discriminant default_tube (V4 0 (1 / 10) 1 0) (V4 (1 / 2) (1 / 2) 0 1)))
                   / (2 * quad_a default_tube (V4 0 (1 / 10) 1 0)))"
      unfolding a b d t_def by (simp add: default_tube_def)
    show "1 < \<bar>dot4 (sub4 (ray_point (V4 (1 / 2) (1 / 2) 0 1) (V4 0 (1 / 10) 1 0) t)
                       (origin default_tube)) (basis_x default_tube) / s_x default_tube\<bar>"
      unfolding ax using t1 by simp
  qed
qed

lemma test_ray_beside_moved_tube:
  "intersect moved_tube (V4 1 0 0 0) (V4 0 0 0 1) = miss"
proof -
  have a: "quad_a moved_tube (V4 1 0 0 0) = 1"
    by (simp add: quad_a_def radial_def default_tube_def moved_tube_def)
  have d: "discriminant moved_tube (V4 1 0 0 0) (V4 0 0 0 1) = 36 / 25"
    by (simp add: discriminant_def quad_a_def quad_b_def quad_c_def radial_dist2_def
          radial_def tube_radius_def norm4_def default_tube_def moved_tube_def power2_eq_square)
  have ax: "dot4 (sub4 (ray_point (V4 0 0 0 1) (V4 1 0 0 0) t) (origin moved_tube))
                 (basis_x moved_tube) / s_x moved_tube = - (6 / 5)" for t
    by (simp add: ray_point_def default_tube_def moved_tube_def)
  show ?thesis
    by (rule intersect_axial_miss [OF _ _ refl]) (simp_all add: a d ax isclose_def)
qed

text \<open>
  The call of a \<^verbatim>\<open>RectangleAperture\<close> or of a \<^verbatim>\<open>CircleAperture\<close> of
  non-zero radius returns for every batch whose rows have a direction and a
  probability, when the element does not write its own columns under these two
  names.
\<close>

lemma get_vec_column_total:
  "\<forall>p\<in>set ps. \<exists>d. p c = Some (Vec d) \<Longrightarrow> \<exists>ds. get_vec_column c ps = Some ds"
  by (induction ps) auto

lemma imul_column_total:
  "length fs = length ps \<Longrightarrow> \<forall>p\<in>set ps. \<exists>w. p c = Some (Num w) \<Longrightarrow>
     \<exists>ps'. imul_column c fs ps = Some ps'"
proof (induction ps arbitrary: fs)
  case Nil
  then show ?case by simp
next
  case (Cons p ps)
  then obtain f fs' where fs: "fs = f # fs'" by (cases fs) auto
  with Cons.prems have "length fs' = length ps" "\<forall>p\<in>set ps. \<exists>w. p c = Some (Num w)"
    by simp_all
  from Cons.IH [OF this] obtain ps' where "imul_column c fs' ps = Some ps'" by blast
  moreover from Cons.prems obtain w where "p c = Some (Num w)" by auto
  ultimately show ?case using fs by simp
qed

lemma generate_local_xy_returns:
  assumes "cls self \<noteq> FlatAperture"
    and "cls self = CircleAperture \<longrightarrow> norm4 (v_y (geometry self)) \<noteq> 0"
  shows "\<exists>x y g'. generate_local_xy self n g = Inr ((x, y), g')"
  using assms
  by (cases "cls self")
     (simp_all add: generate_local_xy_def uniform_def random_sample_def Let_def)

lemma FlatAperture_call_returns:
  assumes "cls self \<noteq> FlatAperture"
    and "cls self = CircleAperture \<longrightarrow> norm4 (v_y (geometry self)) \<noteq> 0"
    and "''dir'' \<notin> element_cols self" and "''probability'' \<notin> element_cols self"
    and "\<forall>p\<in>set photons. (\<exists>d. p ''dir'' = Some (Vec d)) \<and> (\<exists>w. p ''probability'' = Some (Num w))"
  shows "\<exists>photons' g'. FlatAperture_call self photons g = Inr (photons', g')"
proof -
  define geom where "geom = geometry self"
  define photons1 where "photons1 = add_output_cols photons (loc_coos_name geom)"
  define photons2 where "photons2 = (case id_col self of
                        None \<Rightarrow> photons1
                      | Some c \<Rightarrow> set_scalar c (Num (real_of_int (id_num self))) photons1)"
  have len2: "length photons2 = length photons"
    by (simp add: photons2_def photons1_def add_output_cols_def set_scalar_def
             split: option.splits prod.splits)
  from generate_local_xy_returns [OF assms(1,2)] obtain x y g' where
    gen: "generate_local_xy self (length photons2) g = Inr ((x, y), g')"
    by blast
  have lx: "length x = length photons" and ly: "length y = length photons"
    using generate_local_xy_length [OF gen] len2 by simp_all
  define photons3 where "photons3 = (case loc_coos_name geom of
                                None \<Rightarrow> photons2
                              | Some (n0, n1) \<Rightarrow>
                                  set_column n1 (map Num y) (set_column n0 (map Num x) photons2))"
  define photons4 where "photons4 = set_column ''pos''
                               (map (\<lambda>(x, y). Vec (add4 (add4 (center geom) (scale4 x (v_y geom)))
                                                          (scale4 y (v_z geom))))
                                    (zip x y))
                               photons3"
  have len4: "length photons4 = length photons"
    using lx ly len2
    by (simp add: photons4_def photons3_def set_column_def split: option.splits prod.splits)
  have row4: "photons4 ! j = row_after_pos self (photons ! j) (x ! j) (y ! j)"
    if "j < length photons" for j
    using that lx ly
    by (simp add: photons4_def photons3_def photons2_def photons1_def set_column_def
          set_scalar_def add_output_cols_def row_after_pos_def geom_def Let_def
          split: option.splits prod.splits)
  have cols: "(\<exists>d. p ''dir'' = Some (Vec d)) \<and> (\<exists>w. p ''probability'' = Some (Num w))"
    if "p \<in> set photons4" for p
  proof -
    from that obtain j where j: "j < length photons" and p: "p = photons4 ! j"
      using len4 by (auto simp: in_set_conv_nth)
    have "photons ! j \<in> set photons" using j by simp
    then show ?thesis
      using assms(5) row_after_pos_other [OF assms(3), of "photons ! j" "x ! j" "y ! j"]
        row_after_pos_other [OF assms(4), of "photons ! j" "x ! j" "y ! j"]
      unfolding p row4 [OF j] by simp
  qed
  from get_vec_column_total [of photons4 "''dir''"] cols obtain dirs where
    dirs: "get_vec_column ''dir'' photons4 = Some dirs"
    by blast
  have "length dirs = length photons4"
    using get_vec_column_Some [OF dirs] by simp
  then have "length (map (\<lambda>a. clip a 0 1) (map (\<lambda>d. dot4 d (neg4 (e_x geom))) dirs))
               = length photons4"
    by simp
  from imul_column_total [OF this, of "''probability''"] cols obtain photons5 where
    mul: "imul_column ''probability''
            (map (\<lambda>a. clip a 0 1) (map (\<lambda>d. dot4 d (neg4 (e_x geom))) dirs)) photons4
          = Some photons5"
    by blast
  have "FlatAperture_call self photons g = Inr (photons5, g')"
    unfolding FlatAperture_call_def Let_def
    using gen dirs mul
    unfolding photons4_def photons3_def photons2_def photons1_def geom_def
    by simp
  then show ?thesis by blast
qed

section \<open>The claims\<close>

text \<open>
  Claim C1, as amended. A flat aperture call whose id column and local
  coordinate columns are not named \<^verbatim>\<open>dir\<close> or \<^verbatim>\<open>probability\<close>
  multiplies the probability of every photon by
  \<open>clip (dir \<bullet> (- e_x)) 0 1\<close>. Hence a probability in \<open>[0, 1]\<close> ends in
  \<open>[0, original]\<close>, and a photon with \<open>dir \<bullet> e_x \<ge> 0\<close>, which comes in
  through the back, ends with probability 0. The call is any call that
  returns (\<open>FlatAperture_call_returns\<close> says when it does).
\<close>

theorem C1_probability_attenuation:
  assumes "FlatAperture_call self photons g = Inr (photons', g')"
    and "''dir'' \<notin> element_cols self" and "''probability'' \<notin> element_cols self"
    and "j < length photons"
    and "(photons ! j) ''dir'' = Some (Vec d)"
    and "(photons ! j) ''probability'' = Some (Num w)"
  shows "(photons' ! j) ''probability''
           = Some (Num (w * clip (dot4 d (neg4 (e_x (geometry self)))) 0 1)) \<and>
         (0 \<le> w \<and> w \<le> 1 \<longrightarrow>
            0 \<le> w * clip (dot4 d (neg4 (e_x (geometry self)))) 0 1 \<and>
            w * clip (dot4 d (neg4 (e_x (geometry self)))) 0 1 \<le> w) \<and>
         (0 \<le> dot4 d (e_x (geometry self)) \<longrightarrow> (photons' ! j) ''probability'' = Some (Num 0))"
proof -
  from FlatAperture_call_rows [OF assms(1)] assms(4) obtain x y where
    row: "photons' ! j = row_result self (photons ! j) (x ! j) (y ! j)"
    by blast
  have d: "row_after_pos self (photons ! j) (x ! j) (y ! j) ''dir'' = Some (Vec d)"
    using row_after_pos_other [OF assms(2)] assms(5) by simp
  have w: "row_after_pos self (photons ! j) (x ! j) (y ! j) ''probability'' = Some (Num w)"
    using row_after_pos_other [OF assms(3)] assms(6) by simp
  have eq: "(photons' ! j) ''probability''
           = Some (Num (w * clip (dot4 d (neg4 (e_x (geometry self)))) 0 1))"
    using row d w by (simp add: row_result_def Let_def)
  have bounds: "0 \<le> w * clip a 0 1 \<and> w * clip a 0 1 \<le> w" if "0 \<le> w" for a
    using that clip_unit [of a] by (simp add: mult_left_le)
  have rear: "clip (dot4 d (neg4 e)) 0 1 = 0" if "0 \<le> dot4 d e" for e
    using that by (simp add: clip_def dot4_neg4)
  show ?thesis
    using eq bounds rear by simp
qed

theorem C1_probability_attenuation_witness:
  "map_sum id fst (FlatAperture_call example_rectangle [example_photon] example_rng) =
     Inr [example_photon(''y'' \<mapsto> Num (1 / 2), ''z'' \<mapsto> Num (- 1 / 2),
            ''aperture'' \<mapsto> Num 7,
            ''pos'' \<mapsto> Vec (V4 0 (1 / 2) (- 1 / 2) 1),
            ''probability'' \<mapsto> Num (3 / 5))] \<and>
   1 * clip (dot4 (V4 (- 3 / 5) (4 / 5) 0 0) (neg4 (e_x (geometry example_rectangle)))) 0 1
     = 3 / 5"
proof -
  from map_sum_fst_InrD [OF example_call] obtain g' where
    call: "FlatAperture_call example_rectangle [example_photon] example_rng =
       Inr ([example_photon(''y'' \<mapsto> Num (1 / 2), ''z'' \<mapsto> Num (- 1 / 2),
            ''aperture'' \<mapsto> Num 7,
            ''pos'' \<mapsto> Vec (V4 0 (1 / 2) (- 1 / 2) 1),
            ''probability'' \<mapsto> Num (3 / 5))], g')"
    by blast
  have "([example_photon(''y'' \<mapsto> Num (1 / 2), ''z'' \<mapsto> Num (- 1 / 2),
            ''aperture'' \<mapsto> Num 7,
            ''pos'' \<mapsto> Vec (V4 0 (1 / 2) (- 1 / 2) 1),
            ''probability'' \<mapsto> Num (3 / 5))] ! 0) ''probability''
        = Some (Num (1 * clip (dot4 (V4 (- 3 / 5) (4 / 5) 0 0)
                                 (neg4 (e_x (geometry example_rectangle)))) 0 1))"
    using C1_probability_attenuation [OF call, of 0 "V4 (- 3 / 5) (4 / 5) 0 0" 1]
    by (simp add: element_cols_def example_rectangle_def example_geometry_def
          example_photon_def)
  then show ?thesis
    using example_call by simp
qed

text \<open>
  The claim as first stated is for every flat aperture call. The id is written
  into the id column before the probability is multiplied: an aperture whose
  id column is named \<^verbatim>\<open>probability\<close> replaces the probability 1 of the
  photon by its id 7, and the call ends with \<open>7 * 3/5\<close> where the claim has
  \<open>1 * 3/5\<close>, a value outside \<open>[0, 1]\<close>.
\<close>

theorem C1_probability_attenuation_counterexample:
  "map_sum id fst
     (FlatAperture_call (example_rectangle\<lparr>id_col := Some ''probability''\<rparr>)
        [example_photon] example_rng) =
     Inr [example_photon(''y'' \<mapsto> Num (1 / 2), ''z'' \<mapsto> Num (- 1 / 2),
            ''pos'' \<mapsto> Vec (V4 0 (1 / 2) (- 1 / 2) 1),
            ''probability'' \<mapsto> Num (21 / 5))] \<and>
   example_photon ''probability'' = Some (Num 1) \<and>
   example_photon ''dir'' = Some (Vec (V4 (- 3 / 5) (4 / 5) 0 0)) \<and>
   1 * clip (dot4 (V4 (- 3 / 5) (4 / 5) 0 0) (neg4 (e_x (geometry example_rectangle)))) 0 1
     = 3 / 5"
  by (simp add: FlatAperture_call_def example_rectangle_def example_geometry_def
        example_photon_def example_rng_def add_output_cols_def set_scalar_def
        set_column_def generate_local_xy_def random_sample_def clip_def Let_def fun_upd_twist)

text \<open>
  Claim C2, as amended. The constructor of \<^verbatim>\<open>CircleAperture\<close> fails with a
  \<^verbatim>\<open>ValueError\<close> when \<open>r_inner\<close> is greater than the outer radius
  \<open>|v_y|\<close>. With \<open>r_inner\<close> strictly less than the outer radius it fails
  with a \<^verbatim>\<open>GeometryError\<close> when the norms of \<open>v_y\<close> and \<open>v_z\<close> are not
  equal within the tolerance of \<^verbatim>\<open>np.isclose\<close>, and succeeds when they are.
\<close>

theorem C2_constructor:
  "(norm4 (v_y geom) < r_inner geom \<longrightarrow>
      CircleAperture_init geom idc idn =
        Inl (ValueError ''r_inner must be less than size of full aperture.'')) \<and>
   (r_inner geom < norm4 (v_y geom) \<and> \<not> isclose (norm4 (v_y geom)) (norm4 (v_z geom)) \<longrightarrow>
      CircleAperture_init geom idc idn =
        Inl (GeometryError ''Aperture does not have the same size in y, z direction.'')) \<and>
   (r_inner geom < norm4 (v_y geom) \<and> isclose (norm4 (v_y geom)) (norm4 (v_z geom)) \<longrightarrow>
      CircleAperture_init geom idc idn =
        Inr \<lparr>cls = CircleAperture, geometry = geom, id_col = idc, id_num = idn\<rparr>)"
  by (simp add: CircleAperture_init_def)

theorem C2_constructor_witness:
  "CircleAperture_init (example_geometry\<lparr>r_inner := 2\<rparr>) None 0 =
     Inl (ValueError ''r_inner must be less than size of full aperture.'') \<and>
   CircleAperture_init (example_geometry\<lparr>v_z := V4 0 0 2 0\<rparr>) None 0 =
     Inl (GeometryError ''Aperture does not have the same size in y, z direction.'') \<and>
   CircleAperture_init example_geometry None 0 = Inr example_circle"
  using C2_constructor [of "example_geometry\<lparr>r_inner := 2\<rparr>" None 0]
    C2_constructor [of "example_geometry\<lparr>v_z := V4 0 0 2 0\<rparr>" None 0]
    C2_constructor [of example_geometry None 0]
  by (simp add: example_geometry_def example_circle_def norm4_def isclose_def)

text \<open>
  The claim as first stated has every violated invariant raise a
  \<^verbatim>\<open>GeometryError\<close>. An inner radius of 2 in a symmetric aperture of outer
  radius 1 raises a \<^verbatim>\<open>ValueError\<close>.
\<close>

theorem C2_constructor_counterexample:
  "CircleAperture_init (example_geometry\<lparr>r_inner := 2\<rparr>) None 0 =
     Inl (ValueError ''r_inner must be less than size of full aperture.'') \<and>
   norm4 (v_y (example_geometry\<lparr>r_inner := 2\<rparr>)) = 1 \<and>
   r_inner (example_geometry\<lparr>r_inner := 2\<rparr>) = 2 \<and>
   isclose (norm4 (v_y (example_geometry\<lparr>r_inner := 2\<rparr>)))
           (norm4 (v_z (example_geometry\<lparr>r_inner := 2\<rparr>)))"
  by (simp add: CircleAperture_init_def example_geometry_def norm4_def isclose_def)

text \<open>
  Claim C3, as amended. A \<^verbatim>\<open>MultiAperture\<close> call that returns, over
  elements of non-negative areas that are not all zero and draws \<open>u\<close> from
  \<open>[0, 1)\<close>, has assigned photon \<open>j\<close> to an element \<open>aperid\<^sub>j\<close> of the list,
  and \<open>aperid\<^sub>j = i\<close> exactly when
  \<open>cumsum(A)[i-1] / sum(A) \<le> u\<^sub>j < cumsum(A)[i] / sum(A)\<close>, with 0 for
  \<open>cumsum(A)[-1]\<close>. The index is what the id column of the photon holds when
  the groups are formed, its other columns being as they were. Element \<open>i\<close>
  is called on the rows assigned to it (after the preprocessing steps, and
  followed by the postprocessing steps), and the result is the concatenation
  of the outputs in the order of the elements. The groups handed to the
  elements hold every row of the batch exactly once.
\<close>

theorem C3_multi_aperture:
  assumes "MultiAperture_call digitize_nonfinite self photons g = Inr (photons', g')"
    and "\<forall>e\<in>set (elements self). 0 \<le> area e"
    and "MultiAperture_area self \<noteq> 0"
    and "unit_draws g"
  shows "\<exists>aperid outs.
      length aperid = length photons \<and>
      (\<forall>j<length photons.
         aperid ! j < length (elements self) \<and>
         (\<forall>i<length (elements self).
            aperid ! j = i \<longleftrightarrow>
              (if i = 0 then 0 else cumsum (map area (elements self)) ! (i - 1))
                 / MultiAperture_area self \<le> g j \<and>
              g j < cumsum (map area (elements self)) ! i / MultiAperture_area self) \<and>
         (\<forall>c. (tag_photons (multi_id_col self) aperid photons ! j) c =
               (if multi_id_col self = Some c then Some (Num (real (aperid ! j)))
                else (photons ! j) c))) \<and>
      length outs = length (elements self) \<and>
      (\<forall>i<length (elements self). \<exists>gi gi' out.
         call (elements self ! i)
              (run_steps (preprocess_steps self)
                 (select_group (tag_photons (multi_id_col self) aperid photons) aperid i)) gi
           = Inr (out, gi') \<and>
         outs ! i = run_steps (postprocess_steps self) out) \<and>
      photons' = concat outs \<and>
      mset (concat (map (select_group (tag_photons (multi_id_col self) aperid photons) aperid)
                        [0..<length (elements self)]))
        = mset (tag_photons (multi_id_col self) aperid photons)"
proof -
  define areas where "areas = map area (elements self)"
  define total where "total = MultiAperture_area self"
  define bins where "bins = map (\<lambda>c. c / total) (cumsum areas)"
  define us where "us = map g [0..<length photons]"
  define k where "k = length (elements self)"
  have tot0: "total \<noteq> 0"
    using assms(3) by (simp add: total_def)
  have da: "divide_array (cumsum areas) total = Some bins"
    using tot0 by (simp add: divide_array_def bins_def)
  from assms(1) obtain aperid outs g1 where
    dig: "digitize us bins = Inr aperid"
    and run: "run_elements self (tag_photons (multi_id_col self) aperid photons) aperid 0
                (elements self) g1 = Inr (outs, g')"
    and vs: "vstack outs = Inr photons'"
    unfolding MultiAperture_call_def Let_def random_sample_def
      areas_def [symmetric] total_def [symmetric] us_def [symmetric] da
    by (auto split: sum.splits prod.splits if_splits)
  have nn: "\<forall>y\<in>set areas. 0 \<le> y"
    using assms(2) by (auto simp: areas_def)
  have tot: "0 < total"
    using tot0 sum_list_nonneg [of areas] nn
    by (simp add: total_def MultiAperture_area_def areas_def [symmetric] less_le)
  have sc: "sorted (cumsum areas)"
    using sorted_cumsum_from [OF nn] by (simp add: cumsum_def)
  have sb: "sorted bins"
    unfolding bins_def using sc tot
    by (auto simp add: sorted_iff_nth_mono divide_right_mono)
  have lb: "length bins = k"
    by (simp add: bins_def cumsum_def length_cumsum_from areas_def k_def)
  have ap: "aperid = map (searchsorted_right bins) us"
    using dig sb by (simp add: digitize_def)
  have len: "length aperid = length photons"
    by (simp add: ap us_def)
  have outs_ne: "outs \<noteq> []" and cat: "photons' = concat outs"
    using vs by (auto simp: vstack_def split: if_splits)
  note R = run_elements_Inr [OF run]
  have kpos: "0 < k"
    using R outs_ne by (auto simp: k_def)
  have areas_ne: "areas \<noteq> []"
    using kpos by (auto simp: areas_def k_def)
  have lastb: "last bins = 1"
  proof -
    have "cumsum areas \<noteq> []"
      using areas_ne length_cumsum_from [of 0 areas] by (auto simp: cumsum_def)
    then have "last bins = last (cumsum areas) / total"
      by (simp add: bins_def last_map)
    also have "\<dots> = sum_list areas / total"
      using last_cumsum_from [OF areas_ne, of 0] by (simp add: cumsum_def)
    also have "\<dots> = 1"
      using tot0 by (simp add: total_def MultiAperture_area_def areas_def)
    finally show ?thesis .
  qed
  have bins_ne: "bins \<noteq> []"
    using lb kpos by auto
  have nthb: "bins ! i = cumsum areas ! i / total" if "i < k" for i
    using that lb by (simp add: bins_def)
  have rowj: "aperid ! j < k \<and>
         (\<forall>i<k. aperid ! j = i \<longleftrightarrow>
              (if i = 0 then 0 else cumsum areas ! (i - 1)) / total \<le> g j \<and>
              g j < cumsum areas ! i / total)"
    if j: "j < length photons" for j
  proof -
    have aj: "aperid ! j = searchsorted_right bins (g j)"
      using j by (simp add: ap us_def)
    have u: "0 \<le> g j" "g j < 1"
      using assms(4) by (simp_all add: unit_draws_def)
    have 1: "aperid ! j < k"
      using searchsorted_right_less [OF bins_ne, of "g j"] u lastb lb aj by simp
    have 2: "aperid ! j = i \<longleftrightarrow>
              (if i = 0 then 0 else cumsum areas ! (i - 1)) / total \<le> g j \<and>
              g j < cumsum areas ! i / total" if i: "i < k" for i
    proof (cases "i = 0")
      case True
      then show ?thesis
        using searchsorted_right_iff [OF sb, of 0 "g j"] i lb aj u nthb [OF i] by simp
    next
      case False
      then have "i - 1 < k" using i by simp
      from nthb [OF this] nthb [OF i] show ?thesis
        using searchsorted_right_iff [OF sb, of i "g j"] i lb aj False by simp
    qed
    from 1 2 show ?thesis by blast
  qed
  have allk: "\<forall>a\<in>set aperid. a < k"
    using rowj len by (auto simp: in_set_conv_nth)
  have part: "mset (concat (map (select_group (tag_photons (multi_id_col self) aperid photons) aperid)
                        [0..<k]))
        = mset (tag_photons (multi_id_col self) aperid photons)"
    by (rule mset_groups) (simp_all add: tag_photons_length len allk)
  have tagj: "\<forall>c. (tag_photons (multi_id_col self) aperid photons ! j) c =
               (if multi_id_col self = Some c then Some (Num (real (aperid ! j)))
                else (photons ! j) c)" if "j < length photons" for j
    using tag_photons_nth [OF len that] by simp
  have A: "\<forall>j<length photons.
         aperid ! j < k \<and>
         (\<forall>i<k. aperid ! j = i \<longleftrightarrow>
              (if i = 0 then 0 else cumsum areas ! (i - 1)) / total \<le> g j \<and>
              g j < cumsum areas ! i / total) \<and>
         (\<forall>c. (tag_photons (multi_id_col self) aperid photons ! j) c =
               (if multi_id_col self = Some c then Some (Num (real (aperid ! j)))
                else (photons ! j) c))"
    using rowj tagj by simp
  have B: "length outs = k" using R by (simp add: k_def)
  have C: "\<forall>i<k. \<exists>gi gi' out.
         call (elements self ! i)
              (run_steps (preprocess_steps self)
                 (select_group (tag_photons (multi_id_col self) aperid photons) aperid i)) gi
           = Inr (out, gi') \<and>
         outs ! i = run_steps (postprocess_steps self) out"
    using R by (simp add: k_def)
  show ?thesis
    unfolding areas_def [symmetric] total_def [symmetric] k_def [symmetric]
    by (rule exI [of _ aperid], rule exI [of _ outs]) (intro conjI len A B C cat part)
qed

theorem C3_multi_aperture_witness:
  "map_sum id fst
     (MultiAperture_call example_nonfinite example_multi [example_photon, example_photon2]
        example_rng) =
     Inr [example_photon2(''aperture'' \<mapsto> Num 0, ''y'' \<mapsto> Num (- 1 / 2), ''z'' \<mapsto> Num (- 1 / 2),
            ''pos'' \<mapsto> Vec (V4 0 (- 1 / 2) (- 1 / 2) 1),
            ''probability'' \<mapsto> Num (3 / 5)),
          example_photon(''aperture'' \<mapsto> Num 1, ''y'' \<mapsto> Num (- 1 / 2), ''z'' \<mapsto> Num (- 1 / 2),
            ''pos'' \<mapsto> Vec (V4 0 (- 1) (- 1 / 2) 1),
            ''probability'' \<mapsto> Num (3 / 5))] \<and>
   0 \<le> area (elements example_multi ! 0) \<and> 0 \<le> area (elements example_multi ! 1) \<and>
   MultiAperture_area example_multi = 12 \<and>
   unit_draws example_rng \<and>
   (\<exists>outs. length outs = length (elements example_multi) \<and>
      [example_photon2(''aperture'' \<mapsto> Num 0, ''y'' \<mapsto> Num (- 1 / 2), ''z'' \<mapsto> Num (- 1 / 2),
            ''pos'' \<mapsto> Vec (V4 0 (- 1 / 2) (- 1 / 2) 1),
            ''probability'' \<mapsto> Num (3 / 5)),
          example_photon(''aperture'' \<mapsto> Num 1, ''y'' \<mapsto> Num (- 1 / 2), ''z'' \<mapsto> Num (- 1 / 2),
            ''pos'' \<mapsto> Vec (V4 0 (- 1) (- 1 / 2) 1),
            ''probability'' \<mapsto> Num (3 / 5))] = concat outs)"
proof -
  from map_sum_fst_InrD [OF example_multi_call] obtain g' where
    call: "MultiAperture_call example_nonfinite example_multi [example_photon, example_photon2]
             example_rng =
       Inr ([example_photon2(''aperture'' \<mapsto> Num 0, ''y'' \<mapsto> Num (- 1 / 2), ''z'' \<mapsto> Num (- 1 / 2),
            ''pos'' \<mapsto> Vec (V4 0 (- 1 / 2) (- 1 / 2) 1),
            ''probability'' \<mapsto> Num (3 / 5)),
          example_photon(''aperture'' \<mapsto> Num 1, ''y'' \<mapsto> Num (- 1 / 2), ''z'' \<mapsto> Num (- 1 / 2),
            ''pos'' \<mapsto> Vec (V4 0 (- 1) (- 1 / 2) 1),
            ''probability'' \<mapsto> Num (3 / 5))], g')"
    by blast
  have a: "\<forall>e\<in>set (elements example_multi). 0 \<le> area e"
    by (simp add: example_multi_def example_areas)
  have t: "MultiAperture_area example_multi = 12"
    by (simp add: MultiAperture_area_def example_multi_def example_areas)
  then have t0: "MultiAperture_area example_multi \<noteq> 0"
    by simp
  have u: "unit_draws example_rng"
    by (simp add: unit_draws_def example_rng_def)
  from C3_multi_aperture [OF call a t0 u]
  have "\<exists>outs. length outs = length (elements example_multi) \<and>
      [example_photon2(''aperture'' \<mapsto> Num 0, ''y'' \<mapsto> Num (- 1 / 2), ''z'' \<mapsto> Num (- 1 / 2),
            ''pos'' \<mapsto> Vec (V4 0 (- 1 / 2) (- 1 / 2) 1),
            ''probability'' \<mapsto> Num (3 / 5)),
          example_photon(''aperture'' \<mapsto> Num 1, ''y'' \<mapsto> Num (- 1 / 2), ''z'' \<mapsto> Num (- 1 / 2),
            ''pos'' \<mapsto> Vec (V4 0 (- 1) (- 1 / 2) 1),
            ''probability'' \<mapsto> Num (3 / 5))] = concat outs"
    by blast
  then show ?thesis
    using example_multi_call a t u by (simp add: example_multi_def)
qed

text \<open>
  The claim as first stated is for sub-apertures of any areas. The constructor
  of \<^verbatim>\<open>CircleAperture\<close> accepts an inner radius of -2 in an aperture of outer
  radius 1, whose area is negative. With areas 4 and -3 the bins are 4 and 1,
  and \<^verbatim>\<open>np.digitize\<close> takes them for decreasing bins: the draw 3/4 lies
  between 0 and the first bin, where the claim assigns the photon to the first
  aperture, and the call puts it past both bins, into no group, and returns an
  empty table.
\<close>

theorem C3_multi_aperture_counterexample:
  "CircleAperture_init (geometry example_negative_circle) None 0 = Inr example_negative_circle \<and>
   map area (elements example_multi_negative) = [4, - 3] \<and>
   0 / MultiAperture_area example_multi_negative \<le> example_rng 0 \<and>
   example_rng 0 <
     cumsum (map area (elements example_multi_negative)) ! 0 /
       MultiAperture_area example_multi_negative \<and>
   map_sum id fst
     (MultiAperture_call example_nonfinite example_multi_negative [example_photon] example_rng)
     = Inr []"
proof -
  have n: "norm4 (V4 0 1 0 0) = 1" "norm4 (V4 0 0 1 0) = 1"
    by (simp_all add: norm4_def)
  have init: "CircleAperture_init (geometry example_negative_circle) None 0
                = Inr example_negative_circle"
    by (simp add: CircleAperture_init_def example_negative_circle_def example_geometry_def
          n isclose_def)
  have ar: "map area (elements example_multi_negative) = [4, - 3]"
    by (simp add: example_multi_negative_def example_areas CircleAperture_area_def
          example_negative_circle_def example_geometry_def n Let_def)
  have dg: "digitize [3 / 4] [4, 1] = Inr [2]"
    by (simp add: digitize_def searchsorted_right_def)
  have c0: "FlatAperture_call example_unit [] g = Inr ([], (\<lambda>i. g i))" for g
    by (simp add: FlatAperture_call_def example_unit_def example_rectangle_def
          example_geometry_def add_output_cols_def set_scalar_def set_column_def
          generate_local_xy_def random_sample_def Let_def)
  have c1: "FlatAperture_call example_negative_circle [] g = Inr ([], (\<lambda>i. g i))" for g
    by (simp add: FlatAperture_call_def example_negative_circle_def
          example_geometry_def add_output_cols_def set_scalar_def set_column_def
          generate_local_xy_def uniform_def random_sample_def Let_def n)
  have call: "map_sum id fst
     (MultiAperture_call example_nonfinite example_multi_negative [example_photon] example_rng)
     = Inr []"
    unfolding MultiAperture_call_def MultiAperture_area_def ar Let_def
    by (simp add: example_multi_negative_def cumsum_def divide_array_def random_sample_def
          example_rng_def dg tag_photons_def set_column_def select_group_def run_steps_def
          c0 c1 vstack_def)
  show ?thesis
    using init ar call
    by (simp add: MultiAperture_area_def cumsum_def example_rng_def)
qed

text \<open>
  Claim C4. For every placement of the tube (origin, basis and scale are
  arbitrary) and every ray: a ray that stays at a radius greater than the
  radius of the tube misses; a ray without a radial direction component (a
  degenerate quadratic) or with a negative discriminant misses; and a miss has
  its position and its local coordinates NaN-filled.
\<close>

theorem C4_tube_miss:
  "((\<forall>t. (tube_radius T) ^ 2 < radial_dist2 T (ray_point pos dir t)) \<longrightarrow>
      hit (intersect T dir pos) = False) \<and>
   (isclose (quad_a T dir) 0 \<or> discriminant T dir pos < 0 \<longrightarrow>
      hit (intersect T dir pos) = False) \<and>
   (hit (intersect T dir pos) = False \<longrightarrow>
      globalPoint (intersect T dir pos) = None \<and> localCoords (intersect T dir pos) = None)"
proof (intro conjI impI)
  assume out: "\<forall>t. (tube_radius T) ^ 2 < radial_dist2 T (ray_point pos dir t)"
  show "hit (intersect T dir pos) = False"
  proof (cases "isclose (quad_a T dir) 0")
    case True
    then show ?thesis by (simp add: intersect_def miss_def)
  next
    case False
    then have "0 < quad_a T dir"
      using quad_a_nonneg [of T dir] by (auto simp: isclose_def)
    from outside_discriminant [OF out this] show ?thesis
      by (simp add: intersect_def miss_def Let_def)
  qed
next
  assume "isclose (quad_a T dir) 0 \<or> discriminant T dir pos < 0"
  then show "hit (intersect T dir pos) = False"
    by (auto simp add: intersect_def miss_def Let_def)
next
  assume "hit (intersect T dir pos) = False"
  then show "globalPoint (intersect T dir pos) = None"
    by (auto simp add: intersect_def miss_def Let_def split: if_splits prod.splits)
next
  assume "hit (intersect T dir pos) = False"
  then show "localCoords (intersect T dir pos) = None"
    by (auto simp add: intersect_def miss_def Let_def split: if_splits prod.splits)
qed

theorem C4_tube_miss_witness:
  "(tube_radius default_tube) ^ 2 <
      radial_dist2 default_tube (ray_point (V4 0 (- 11 / 10) 0 1) (V4 1 0 (1 / 10) 0) 0) \<and>
   intersect default_tube (V4 1 0 (1 / 10) 0) (V4 0 (- 11 / 10) 0 1) = miss \<and>
   intersect default_tube (V4 (- 1) (- 1) 0 0) (V4 2 0 0 1) = miss \<and>
   intersect default_tube (V4 0 (1 / 10) 1 0) (V4 (1 / 2) (1 / 2) 0 1) = miss \<and>
   intersect moved_tube (V4 1 0 0 0) (V4 0 0 0 1) = miss \<and>
   intersect moved_tube (V4 1 0 0 0) (V4 0 (- 3 / 10) 1 1) = miss"
proof -
  have out: "(tube_radius default_tube) ^ 2 <
      radial_dist2 default_tube (ray_point (V4 0 (- 11 / 10) 0 1) (V4 1 0 (1 / 10) 0) t)" for t
  proof -
    have "radial_dist2 default_tube (ray_point (V4 0 (- 11 / 10) 0 1) (V4 1 0 (1 / 10) 0) t)
            = t ^ 2 + 121 / 100"
      by (simp add: radial_dist2_def radial_def ray_point_def default_tube_def power2_eq_square)
    moreover have "(1 :: real) < t ^ 2 + 121 / 100"
      using zero_le_power2 [of t] by linarith
    ultimately show ?thesis
      by (simp only: tube_radius_default one_power2)
  qed
  have full: "x = miss" if "hit x = False" "globalPoint x = None" "localCoords x = None" for x
    using that by (cases x) (simp add: miss_def)
  have 1: "intersect default_tube (V4 1 0 (1 / 10) 0) (V4 0 (- 11 / 10) 0 1) = miss"
    using C4_tube_miss [of default_tube "V4 0 (- 11 / 10) 0 1" "V4 1 0 (1 / 10) 0"] out
    by (intro full) blast+
  have 2: "intersect default_tube (V4 (- 1) (- 1) 0 0) (V4 2 0 0 1) = miss"
    using C4_tube_miss [of default_tube "V4 2 0 0 1" "V4 (- 1) (- 1) 0 0"]
      test_rays_discriminant(2)
    by (intro full) blast+
  have 3: "intersect moved_tube (V4 1 0 0 0) (V4 0 (- 3 / 10) 1 1) = miss"
    using C4_tube_miss [of moved_tube "V4 0 (- 3 / 10) 1 1" "V4 1 0 0 0"]
      test_rays_discriminant(3)
    by (intro full) blast+
  show ?thesis
    using out [of 0] 1 2 3 test_ray_near_axis test_ray_beside_moved_tube by simp
qed

text \<open>
  Claim C5. The pixel grid of a flat detector is \<open>round (2 * scale / pixsize)\<close>
  per axis, with centre \<open>(npix - 1) / 2\<close>: a zoom of \<open>[1, 10, 5]\<close> and a pixel
  size of 0.5 give \<open>[40, 20]\<close> and \<open>[19.5, 9.5]\<close>, an extent of 2 per axis
  and a pixel size of 0.05 give \<open>[40, 40]\<close>. The number of pixels is within
  1/2 of the quotient, and it is \<open>k\<close> whenever the quotient is closer than 1/2
  to \<open>k\<close>, from below as well as from above: it is never floored.
\<close>

theorem C5_pixel_grid:
  "npix \<lparr>det_scale = (1, 10, 5), pixsize = 1 / 2\<rparr> = (40, 20) \<and>
   centerpix \<lparr>det_scale = (1, 10, 5), pixsize = 1 / 2\<rparr> = (39 / 2, 19 / 2) \<and>
   npix \<lparr>det_scale = (1, 1, 1), pixsize = 1 / 20\<rparr> = (40, 40) \<and>
   \<bar>of_int (fst (npix det)) - 2 * fst (snd (det_scale det)) / pixsize det\<bar> \<le> 1 / 2 \<and>
   \<bar>of_int (snd (npix det)) - 2 * snd (snd (det_scale det)) / pixsize det\<bar> \<le> 1 / 2 \<and>
   (\<bar>2 * fst (snd (det_scale det)) / pixsize det - of_int k\<bar> < 1 / 2 \<longrightarrow> fst (npix det) = k) \<and>
   (\<bar>2 * snd (snd (det_scale det)) / pixsize det - of_int k\<bar> < 1 / 2 \<longrightarrow> snd (npix det) = k) \<and>
   centerpix det = ((of_int (fst (npix det)) - 1) / 2, (of_int (snd (npix det)) - 1) / 2)"
proof -
  have r: "round (40 :: real) = 40" "round (20 :: real) = 20"
    by (simp_all add: round_def)
  obtain sx sy sz where s: "det_scale det = (sx, sy, sz)"
    by (cases "det_scale det") auto
  show ?thesis
    using of_int_round_abs_le [of "2 * sy / pixsize det"]
      of_int_round_abs_le [of "2 * sz / pixsize det"]
      round_unique' [of "2 * sy / pixsize det" k] round_unique' [of "2 * sz / pixsize det" k]
    by (simp add: npix_def centerpix_def s r)
qed

theorem C5_pixel_grid_witness:
  "\<bar>2 * fst (snd (det_scale \<lparr>det_scale = (1, 1, 1), pixsize = 1 / 20\<rparr>)) /
        pixsize \<lparr>det_scale = (1, 1, 1), pixsize = 1 / 20\<rparr> - of_int 40\<bar> < 1 / 2 \<and>
   fst (npix \<lparr>det_scale = (1, 1, 1), pixsize = 1 / 20\<rparr>) = 40 \<and>
   npix \<lparr>det_scale = (1, 10, 5), pixsize = 1 / 2\<rparr> = (40, 20) \<and>
   centerpix \<lparr>det_scale = (1, 10, 5), pixsize = 1 / 2\<rparr> = (39 / 2, 19 / 2)"
  using C5_pixel_grid [of "\<lparr>det_scale = (1, 1, 1), pixsize = 1 / 20\<rparr>" 40]
  by simp

text \<open>
  Claim C6, as amended. For every \<open>n\<close>, every \<^verbatim>\<open>CircleAperture\<close> and draws
  \<open>u\<close> from \<open>[0, 1)\<close>, photon \<open>j\<close> of \<open>n\<close> gets the angle
  \<open>phi = phi_min + (phi_max - phi_min) * u\<^sub>j\<close> and the radius
  \<open>r = sqrt (uniform ((r_inner / |v_y|)\<^sup>2, 1))\<close> from draw \<open>u\<^sub>n\<^sub>+\<^sub>j\<close>, and
  \<open>(x, y) = (r cos phi, r sin phi)\<close>. The point has normalised radius \<open>r\<close>,
  which lies between \<open>|r_inner| / |v_y|\<close> and 1 in whichever order these are:
  between \<open>r_inner / |v_y|\<close> and 1 when the inner radius is between 0 and the
  outer radius. The angle is in \<open>[phi_min, phi_max)\<close> when
  \<open>phi_min < phi_max\<close> and in \<open>(phi_max, phi_min]\<close> when \<open>phi_max < phi_min\<close>.
  For \<open>|r_inner| < |v_y|\<close> and \<open>phi_min < phi_max\<close> the sampling is the inverse
  of the cumulative distribution of a uniform areal density: the radius is at
  most \<open>rho\<close> exactly when its draw is at most
  \<open>(rho\<^sup>2 - lo\<^sup>2) / (1 - lo\<^sup>2)\<close>, the share of the annulus area inside radius
  \<open>rho\<close>, and the angle is at most \<open>t\<close> exactly when its draw is at most the
  share \<open>(t - phi_min) / (phi_max - phi_min)\<close> of the angular interval.
\<close>

theorem C6_circle_sampling:
  assumes "cls self = CircleAperture"
    and "generate_local_xy self n g = Inr ((x, y), g')" and "j < n"
    and "unit_draws g"
  shows "\<exists>ph r.
           ph = fst (phi (geometry self)) +
                (snd (phi (geometry self)) - fst (phi (geometry self))) * g j \<and>
           r = sqrt ((r_inner (geometry self) / norm4 (v_y (geometry self))) ^ 2 +
                     (1 - (r_inner (geometry self) / norm4 (v_y (geometry self))) ^ 2) * g (n + j)) \<and>
           x ! j = r * cos ph \<and> y ! j = r * sin ph \<and>
           sqrt ((x ! j) ^ 2 + (y ! j) ^ 2) = r \<and>
           min \<bar>r_inner (geometry self) / norm4 (v_y (geometry self))\<bar> 1 \<le> r \<and>
           r \<le> max \<bar>r_inner (geometry self) / norm4 (v_y (geometry self))\<bar> 1 \<and>
           (0 \<le> r_inner (geometry self) \<and>
            r_inner (geometry self) \<le> norm4 (v_y (geometry self)) \<longrightarrow>
              r_inner (geometry self) / norm4 (v_y (geometry self)) \<le> r \<and> r \<le> 1) \<and>
           (fst (phi (geometry self)) < snd (phi (geometry self)) \<longrightarrow>
              fst (phi (geometry self)) \<le> ph \<and> ph < snd (phi (geometry self)) \<and>
              (\<forall>t. ph \<le> t \<longleftrightarrow>
                 g j \<le> (t - fst (phi (geometry self))) /
                        (snd (phi (geometry self)) - fst (phi (geometry self))))) \<and>
           (snd (phi (geometry self)) < fst (phi (geometry self)) \<longrightarrow>
              snd (phi (geometry self)) < ph \<and> ph \<le> fst (phi (geometry self))) \<and>
           (\<bar>r_inner (geometry self)\<bar> < norm4 (v_y (geometry self)) \<longrightarrow>
              (\<forall>rho. 0 \<le> rho \<longrightarrow>
                 (r \<le> rho \<longleftrightarrow>
                    g (n + j) \<le>
                      (rho ^ 2 - (r_inner (geometry self) / norm4 (v_y (geometry self))) ^ 2) /
                      (1 - (r_inner (geometry self) / norm4 (v_y (geometry self))) ^ 2))))"
proof -
  define lo where "lo = r_inner (geometry self) / norm4 (v_y (geometry self))"
  define a where "a = fst (phi (geometry self))"
  define b where "b = snd (phi (geometry self))"
  define ph where "ph = a + (b - a) * g j"
  define r where "r = sqrt (lo ^ 2 + (1 - lo ^ 2) * g (n + j))"
  note xy = circle_xy [OF assms(1,2,3), folded lo_def a_def b_def, folded ph_def r_def]
  have npos: "0 < norm4 (v_y (geometry self))"
    using xy norm4_nonneg [of "v_y (geometry self)"] by simp
  have u: "0 \<le> g j" "g j < 1" "0 \<le> g (n + j)" "g (n + j) < 1"
    using assms(4) by (simp_all add: unit_draws_def)
  note rb = radius_between [OF u(3,4), of lo, folded r_def]
  have "(0 :: real) \<le> min \<bar>lo\<bar> 1" by simp
  with rb have r0: "0 \<le> r" by linarith
  have rad: "sqrt ((x ! j) ^ 2 + (y ! j) ^ 2) = r"
    using xy polar_radius [OF r0, of ph] by simp
  have ord: "0 \<le> r_inner (geometry self) \<and>
            r_inner (geometry self) \<le> norm4 (v_y (geometry self)) \<longrightarrow> lo \<le> r \<and> r \<le> 1"
  proof
    assume h: "0 \<le> r_inner (geometry self) \<and>
            r_inner (geometry self) \<le> norm4 (v_y (geometry self))"
    then have "0 \<le> lo" "lo \<le> 1" using npos by (simp_all add: lo_def)
    then have "min \<bar>lo\<bar> 1 = lo" "max \<bar>lo\<bar> 1 = 1" by simp_all
    with rb show "lo \<le> r \<and> r \<le> 1" by simp
  qed
  have ang: "a < b \<longrightarrow> a \<le> ph \<and> ph < b \<and> (\<forall>t. ph \<le> t \<longleftrightarrow> g j \<le> (t - a) / (b - a))"
    using uniform_angle [OF _ u(1,2), of a b, folded ph_def] by blast
  have rev: "b < a \<longrightarrow> b < ph \<and> ph \<le> a"
    using uniform_angle_reversed [OF _ u(1,2), of b a, folded ph_def] by blast
  have cdf: "\<bar>r_inner (geometry self)\<bar> < norm4 (v_y (geometry self)) \<longrightarrow>
      (\<forall>rho. 0 \<le> rho \<longrightarrow> (r \<le> rho \<longleftrightarrow> g (n + j) \<le> (rho ^ 2 - lo ^ 2) / (1 - lo ^ 2)))"
  proof (intro impI allI)
    fix rho :: real
    assume "\<bar>r_inner (geometry self)\<bar> < norm4 (v_y (geometry self))" and rho: "0 \<le> rho"
    then have "\<bar>lo\<bar> < 1" using npos by (simp add: lo_def)
    then have "lo ^ 2 < 1" by (simp add: abs_square_less_1)
    from inverse_cdf_radius [OF this u(3) rho, folded r_def]
    show "r \<le> rho \<longleftrightarrow> g (n + j) \<le> (rho ^ 2 - lo ^ 2) / (1 - lo ^ 2)" .
  qed
  have "ph = a + (b - a) * g j \<and> r = sqrt (lo ^ 2 + (1 - lo ^ 2) * g (n + j)) \<and>
        x ! j = r * cos ph \<and> y ! j = r * sin ph \<and> sqrt ((x ! j) ^ 2 + (y ! j) ^ 2) = r \<and>
        min \<bar>lo\<bar> 1 \<le> r \<and> r \<le> max \<bar>lo\<bar> 1 \<and>
        (0 \<le> r_inner (geometry self) \<and>
            r_inner (geometry self) \<le> norm4 (v_y (geometry self)) \<longrightarrow> lo \<le> r \<and> r \<le> 1) \<and>
        (a < b \<longrightarrow> a \<le> ph \<and> ph < b \<and> (\<forall>t. ph \<le> t \<longleftrightarrow> g j \<le> (t - a) / (b - a))) \<and>
        (b < a \<longrightarrow> b < ph \<and> ph \<le> a) \<and>
        (\<bar>r_inner (geometry self)\<bar> < norm4 (v_y (geometry self)) \<longrightarrow>
          (\<forall>rho. 0 \<le> rho \<longrightarrow> (r \<le> rho \<longleftrightarrow> g (n + j) \<le> (rho ^ 2 - lo ^ 2) / (1 - lo ^ 2))))"
    using xy rad rb ord ang rev cdf ph_def r_def by blast
  then show ?thesis
    unfolding lo_def a_def b_def by (intro exI [of _ ph] exI [of _ r])
qed

theorem C6_circle_sampling_witness:
  "map_sum id fst (generate_local_xy example_circle 1 example_rng_circle) =
     Inr ([- (1 / 2)], [0]) \<and>
   unit_draws example_rng_circle \<and>
   sqrt (([- (1 / 2)] ! 0) ^ 2 + ([0] ! 0) ^ 2) =
     sqrt ((r_inner (geometry example_circle) / norm4 (v_y (geometry example_circle))) ^ 2 +
           (1 - (r_inner (geometry example_circle) / norm4 (v_y (geometry example_circle))) ^ 2) *
             example_rng_circle (1 + 0))"
proof -
  have n: "norm4 (V4 0 1 0 0) = 1"
    by (simp add: norm4_def)
  have gen: "generate_local_xy example_circle 1 example_rng_circle =
      Inr (([- (1 / 2)], [0]), (\<lambda>i. example_rng_circle (1 + (1 + i))))"
    by (simp add: generate_local_xy_def example_circle_def example_geometry_def
          example_rng_circle_def uniform_def random_sample_def Let_def n real_sqrt_divide)
  have u: "unit_draws example_rng_circle"
    by (simp add: unit_draws_def example_rng_circle_def)
  have c: "cls example_circle = CircleAperture"
    by (simp add: example_circle_def)
  from C6_circle_sampling [OF c gen _ u, of 0]
  have "sqrt (([- (1 / 2)] ! 0) ^ 2 + ([0] ! 0) ^ 2) =
     sqrt ((r_inner (geometry example_circle) / norm4 (v_y (geometry example_circle))) ^ 2 +
           (1 - (r_inner (geometry example_circle) / norm4 (v_y (geometry example_circle))) ^ 2) *
             example_rng_circle (1 + 0))"
    by auto
  with gen u show ?thesis by simp
qed

text \<open>
  The claim as first stated is for every \<^verbatim>\<open>CircleAperture\<close> and bounds the
  normalised radius by 1. The constructor only refuses an inner radius greater
  than the outer one: it accepts the inner radius -2 for the outer radius 1,
  and the radii are then drawn from \<open>sqrt (uniform (4, 1))\<close>. With the draw 1/4
  the point lies at \<open>(- sqrt 13 / 2, 0)\<close>, at a normalised radius greater
  than 1.
\<close>

theorem C6_circle_sampling_counterexample:
  "CircleAperture_init (geometry example_inner_negative) None 0 = Inr example_inner_negative \<and>
   map_sum id fst (generate_local_xy example_inner_negative 1 example_rng_circle) =
     Inr ([- (sqrt 13 / 2)], [0]) \<and>
   1 < sqrt 13 / 2"
proof -
  have n: "norm4 (V4 0 1 0 0) = 1" "norm4 (V4 0 0 1 0) = 1"
    by (simp_all add: norm4_def)
  have init: "CircleAperture_init (geometry example_inner_negative) None 0
                = Inr example_inner_negative"
    by (simp add: CircleAperture_init_def example_inner_negative_def example_circle_def
          example_geometry_def n isclose_def)
  have gen: "map_sum id fst (generate_local_xy example_inner_negative 1 example_rng_circle) =
     Inr ([- (sqrt 13 / 2)], [0])"
    by (simp add: generate_local_xy_def example_inner_negative_def example_circle_def
          example_geometry_def example_rng_circle_def uniform_def random_sample_def Let_def n
          real_sqrt_divide)
  have "2 ^ 2 < (13 :: real)" by simp
  then have "2 < sqrt 13" by (rule real_less_rsqrt)
  then have "1 < sqrt 13 / 2" by simp
  with init gen show ?thesis by simp
qed



text \<open>
  Claim C8, as amended. A flat aperture call that returns gives a batch of the
  length of its input. In every row, every column other than \<^verbatim>\<open>pos\<close>,
  \<^verbatim>\<open>probability\<close>, the id column and the two local coordinate columns holds
  what it held before (so \<^verbatim>\<open>dir\<close>, \<^verbatim>\<open>energy\<close> and
  \<^verbatim>\<open>polarization\<close>, unless the element is configured to write its id or
  local coordinates under one of these names), and the columns of the result
  are those of the input together with \<^verbatim>\<open>pos\<close>, the id column and the
  local coordinate columns.
\<close>

theorem C8_frame:
  assumes "FlatAperture_call self photons g = Inr (photons', g')"
  shows "length photons' = length photons \<and>
         (\<forall>j<length photons.
            (\<forall>c. c \<notin> {''pos'', ''probability''} \<union> element_cols self \<longrightarrow>
                 (photons' ! j) c = (photons ! j) c) \<and>
            dom (photons' ! j) = dom (photons ! j) \<union> {''pos''} \<union> element_cols self)"
proof -
  from FlatAperture_call_rows [OF assms] obtain x y where
    len: "length photons' = length photons"
    and rows: "\<forall>j<length photons. photons' ! j = row_result self (photons ! j) (x ! j) (y ! j)"
    by blast
  have "(\<forall>c. c \<notin> {''pos'', ''probability''} \<union> element_cols self \<longrightarrow>
                 (photons' ! j) c = (photons ! j) c) \<and>
            dom (photons' ! j) = dom (photons ! j) \<union> {''pos''} \<union> element_cols self"
    if j: "j < length photons" for j
  proof -
    have r: "photons' ! j = row_result self (photons ! j) (x ! j) (y ! j)"
      using rows j by simp
    show ?thesis
      unfolding r by (simp add: row_result_other row_result_dom)
  qed
  with len show ?thesis by simp
qed

theorem C8_frame_witness:
  "map_sum id fst (FlatAperture_call example_rectangle [example_photon] example_rng) =
     Inr [example_photon(''y'' \<mapsto> Num (1 / 2), ''z'' \<mapsto> Num (- 1 / 2),
            ''aperture'' \<mapsto> Num 7,
            ''pos'' \<mapsto> Vec (V4 0 (1 / 2) (- 1 / 2) 1),
            ''probability'' \<mapsto> Num (3 / 5))] \<and>
   length [example_photon(''y'' \<mapsto> Num (1 / 2), ''z'' \<mapsto> Num (- 1 / 2),
            ''aperture'' \<mapsto> Num 7,
            ''pos'' \<mapsto> Vec (V4 0 (1 / 2) (- 1 / 2) 1),
            ''probability'' \<mapsto> Num (3 / 5))] = length [example_photon] \<and>
   ([example_photon(''y'' \<mapsto> Num (1 / 2), ''z'' \<mapsto> Num (- 1 / 2),
            ''aperture'' \<mapsto> Num 7,
            ''pos'' \<mapsto> Vec (V4 0 (1 / 2) (- 1 / 2) 1),
            ''probability'' \<mapsto> Num (3 / 5))] ! 0) ''energy'' = ([example_photon] ! 0) ''energy'' \<and>
   dom ([example_photon(''y'' \<mapsto> Num (1 / 2), ''z'' \<mapsto> Num (- 1 / 2),
            ''aperture'' \<mapsto> Num 7,
            ''pos'' \<mapsto> Vec (V4 0 (1 / 2) (- 1 / 2) 1),
            ''probability'' \<mapsto> Num (3 / 5))] ! 0) = dom ([example_photon] ! 0) \<union> {''pos''} \<union> element_cols example_rectangle"
proof -
  from map_sum_fst_InrD [OF example_call] obtain g' where
    call: "FlatAperture_call example_rectangle [example_photon] example_rng =
       Inr ([example_photon(''y'' \<mapsto> Num (1 / 2), ''z'' \<mapsto> Num (- 1 / 2),
            ''aperture'' \<mapsto> Num 7,
            ''pos'' \<mapsto> Vec (V4 0 (1 / 2) (- 1 / 2) 1),
            ''probability'' \<mapsto> Num (3 / 5))], g')"
    by blast
  have "''energy'' \<notin> {''pos'', ''probability''} \<union> element_cols example_rectangle"
    by (simp add: element_cols_def example_rectangle_def example_geometry_def)
  with C8_frame [OF call] show ?thesis
    using example_call by simp
qed

text \<open>
  The claim as first stated lets only \<^verbatim>\<open>pos\<close>, \<^verbatim>\<open>probability\<close> and
  the id column change among the columns the input has, and lets only local
  coordinate and id columns be added. A batch that already has a column under
  the name of a local coordinate (\<^verbatim>\<open>y\<close> here, holding 5) gets it
  overwritten, and a batch without a \<^verbatim>\<open>pos\<close> column gets one added.
\<close>

theorem C8_frame_counterexample:
  "map_sum id fst
     (FlatAperture_call example_rectangle [example_photon(''y'' \<mapsto> Num 5)] example_rng) =
     Inr [example_photon(''y'' \<mapsto> Num (1 / 2), ''z'' \<mapsto> Num (- 1 / 2),
            ''aperture'' \<mapsto> Num 7,
            ''pos'' \<mapsto> Vec (V4 0 (1 / 2) (- 1 / 2) 1),
            ''probability'' \<mapsto> Num (3 / 5))] \<and>
   (example_photon(''y'' \<mapsto> Num 5)) ''y'' = Some (Num 5) \<and>
   (example_photon(''y'' \<mapsto> Num 5)) ''pos'' = None \<and>
   id_col example_rectangle = Some ''aperture''"
  by (simp add: FlatAperture_call_def example_rectangle_def example_geometry_def
        example_photon_def example_rng_def add_output_cols_def set_scalar_def
        set_column_def generate_local_xy_def random_sample_def clip_def Let_def fun_upd_twist)

text \<open>
  Claim C9. The area of a \<^verbatim>\<open>RectangleAperture\<close> is \<open>4 |v_y| |v_z|\<close>, the
  area of a \<^verbatim>\<open>CircleAperture\<close> is
  \<open>(phi_max - phi_min) / (2 pi) * pi * (|v_y|\<^sup>2 - r_inner\<^sup>2)\<close>, for every
  geometry.
\<close>

theorem C9_area:
  "RectangleAperture_area self =
     4 * norm4 (v_y (geometry self)) * norm4 (v_z (geometry self)) \<and>
   CircleAperture_area self =
     (snd (phi (geometry self)) - fst (phi (geometry self))) / (2 * pi) * pi *
       ((norm4 (v_y (geometry self))) ^ 2 - (r_inner (geometry self)) ^ 2)"
  by (simp add: RectangleAperture_area_def CircleAperture_area_def Let_def)

theorem C9_area_witness:
  "RectangleAperture_area example_rectangle = 4 \<and> CircleAperture_area example_circle = pi"
  using C9_area [of example_rectangle] C9_area [of example_circle]
  by (simp add: example_rectangle_def example_circle_def example_geometry_def norm4_def)

text \<open>
  Claim C10. \<^verbatim>\<open>process_photons\<close> of a flat aperture raises
  \<^verbatim>\<open>NotImplementedError\<close> for every aperture and every batch and leaves the
  batch as it was. The transformation is in \<^verbatim>\<open>__call__\<close>, which does not go
  through \<^verbatim>\<open>process_photons\<close>: it never ends in that error.
\<close>

theorem C10_process_photons:
  "fst (process_photons self photons) =
     Inl (NotImplementedError ''You probably want to use __call__.'') \<and>
   snd (process_photons self photons) = photons \<and>
   FlatAperture_call self photons g \<noteq> Inl (NotImplementedError m)"
proof -
  have "FlatAperture_call self photons g \<noteq> Inl (NotImplementedError m)"
    using generate_local_xy_not_NotImplemented [of self _ g m]
    by (auto simp add: FlatAperture_call_def Let_def
          split: sum.splits prod.splits option.splits)
  then show ?thesis
    by (simp add: process_photons_def)
qed

theorem C10_process_photons_witness:
  "fst (process_photons example_rectangle [example_photon]) =
     Inl (NotImplementedError ''You probably want to use __call__.'') \<and>
   snd (process_photons example_rectangle [example_photon]) = [example_photon]"
  using C10_process_photons [of example_rectangle "[example_photon]"] by simp

end
